theory Spec2Isabelle
  imports Complex_Main "HOL-Library.Log_Nat"
begin

section \<open>Package httpclient: the typed transport\<close>

text \<open>
  Byte buffers (\<^verbatim>\<open>[]byte\<close>) and Go strings are both sequences of bytes and are
  modelled as \<^typ>\<open>string\<close>; the conversion \<^verbatim>\<open>string(body)\<close> is the identity.
  An HTTP header is a finite map from (canonical) header names to values;
  \<^verbatim>\<open>Header.Set\<close> is the map update, and setting every entry of a Go map is
  \<^term>\<open>(++)\<close>.
\<close>

type_synonym header = "string \<rightharpoonup> string"

record Request =
  Method :: string
  URL :: string
  ReqHeader :: header
  ReqBody :: string
  ContentLength :: nat

text \<open>
  The body of a response is a stream; \<^verbatim>\<open>io.ReadAll\<close> either fails (\<open>Inl\<close>) or
  yields all its bytes (\<open>Inr\<close>).
\<close>

record Response =
  Status :: int
  RespHeader :: header
  RespBody :: "string + string"

record APIError =
  StatusCode :: int
  Message :: string

datatype error =
    APIErr APIError
  | MarshalFailed string
  | CreateRequestFailed string
  | ApplyHeadersFailed string
  | TransportFailed string
  | RequestFailedAfter int string
  | ReadBodyFailed string
  | UnmarshalFailed string

fun is_APIError :: "error \<Rightarrow> bool" where
  "is_APIError (APIErr e) = True"
| "is_APIError _ = False"

record Config =
  BaseURL :: string
  Timeout :: int
  MaxRetries :: int
  RetryDelay :: int
  Debug :: bool
  DefaultHeaders :: header

record Client =
  baseURL :: string
  timeout :: int
  maxRetries :: int
  retryDelay :: int
  debug :: bool
  defaultHeaders :: header
  headerInterceptors :: "(Request \<Rightarrow> string + Request) list"

definition second :: int where
  "second = 1000000000"

text \<open>\<^verbatim>\<open>New\<close>: zero-valued settings are replaced by the defaults.\<close>

definition New :: "Config \<Rightarrow> Client" where
  "New config =
    (let t = (if Timeout config = 0 then 30 * second else Timeout config);
         r = (if MaxRetries config = 0 then 3 else MaxRetries config);
         d = (if RetryDelay config = 0 then 1 * second else RetryDelay config)
     in \<lparr>baseURL = BaseURL config, timeout = t, maxRetries = r, retryDelay = d,
         debug = Debug config, defaultHeaders = DefaultHeaders config,
         headerInterceptors = []\<rparr>)"

definition shouldRetry :: "int \<Rightarrow> bool" where
  "shouldRetry statusCode =
    (statusCode = 429 \<or> statusCode = 500 \<or> statusCode = 502 \<or> statusCode = 503
      \<or> statusCode = 504)"

fun runInterceptors ::
  "(Request \<Rightarrow> string + Request) list \<Rightarrow> Request \<Rightarrow> string + Request" where
  "runInterceptors [] req = Inr req"
| "runInterceptors (f # fs) req =
    (case f req of Inl e \<Rightarrow> Inl e | Inr req' \<Rightarrow> runInterceptors fs req')"

definition standardHeaders :: header where
  "standardHeaders =
    [''Content-Type'' \<mapsto> ''application/json'', ''Accept'' \<mapsto> ''application/json'',
     ''User-Agent'' \<mapsto> ''gaia-mcp-go/1.0'']"

definition applyHeaders :: "Client \<Rightarrow> Request \<Rightarrow> header \<Rightarrow> string + Request" where
  "applyHeaders c req customHeaders =
    runInterceptors (headerInterceptors c)
      (req\<lparr>ReqHeader := ReqHeader req ++ standardHeaders ++ defaultHeaders c ++ customHeaders\<rparr>)"

text \<open>
  What the client does not decide is a parameter: \<open>json_Marshal\<close> is
  \<^verbatim>\<open>json.Marshal\<close> on the payload, \<open>newRequestError\<close> says when
  \<^verbatim>\<open>http.NewRequestWithContext\<close> refuses a method and URL, and \<open>roundTrip\<close> is
  \<^verbatim>\<open>c.client.Do\<close>: for the \<open>n\<close>-th call of one \<^verbatim>\<open>doRequest\<close> and the request
  handed over it tells how many bytes of the request body the transport read
  and whether a response or a network error came back.
\<close>

record round_trip =
  consumed :: nat
  outcome :: "string + Response"

record 'p http_env =
  json_Marshal :: "'p \<Rightarrow> string + string"
  newRequestError :: "string \<Rightarrow> string \<Rightarrow> string option"
  roundTrip :: "nat \<Rightarrow> Request \<Rightarrow> round_trip"

text \<open>
  \<^verbatim>\<open>http.NewRequestWithContext(ctx, method, url, body)\<close> where \<open>body\<close> is either
  \<^verbatim>\<open>nil\<close> or the \<^verbatim>\<open>*bytes.Buffer\<close> made before the retry loop. The request
  carries what is still unread in that buffer at the moment it is created.
\<close>

definition newRequest ::
  "'p http_env \<Rightarrow> string \<Rightarrow> string \<Rightarrow> string option \<Rightarrow> string + Request" where
  "newRequest E method url body =
    (case newRequestError E method url of
       Some e \<Rightarrow> Inl e
     | None \<Rightarrow>
        (let unread = (case body of None \<Rightarrow> [] | Some buf \<Rightarrow> buf)
         in Inr \<lparr>Method = method, URL = url, ReqHeader = Map.empty, ReqBody = unread,
                 ContentLength = length unread\<rparr>))"

text \<open>
  The retry loop of \<^verbatim>\<open>doRequest\<close>. The state is the attempt counter, the shared
  body buffer (its unread bytes), \<^verbatim>\<open>lastErr\<close> and the requests handed to the
  transport so far. The result is Go's pair \<^verbatim>\<open>(*http.Response, error)\<close>, either
  component possibly \<^verbatim>\<open>nil\<close>. Sleeping between attempts and debug logging have
  no effect on the values and are left out.
\<close>

function attempts ::
  "'p http_env \<Rightarrow> Client \<Rightarrow> string \<Rightarrow> string \<Rightarrow> header \<Rightarrow> string option \<Rightarrow> int
    \<Rightarrow> error option \<Rightarrow> Request list
    \<Rightarrow> (Response option \<times> error option) \<times> Request list" where
  "attempts E c method url headers body attempt lastErr sent =
    (if attempt \<le> maxRetries c then
       (case newRequest E method url body of
          Inl e \<Rightarrow> ((None, Some (CreateRequestFailed e)), sent)
        | Inr req0 \<Rightarrow>
           (case applyHeaders c req0 headers of
              Inl e \<Rightarrow> ((None, Some (ApplyHeadersFailed e)), sent)
            | Inr req \<Rightarrow>
               (let rt = roundTrip E (nat attempt) req;
                    body' = map_option (drop (consumed rt)) body;
                    sent' = sent @ [req]
                in case outcome rt of
                     Inl e \<Rightarrow>
                       if attempt < maxRetries c
                       then attempts E c method url headers body' (attempt + 1)
                              (Some (TransportFailed e)) sent'
                       else ((None, Some (RequestFailedAfter (maxRetries c + 1) e)), sent')
                   | Inr resp \<Rightarrow>
                       if shouldRetry (Status resp) \<and> attempt < maxRetries c
                       then attempts E c method url headers body' (attempt + 1) lastErr sent'
                       else ((Some resp, None), sent'))))
     else ((None, lastErr), sent))"
  by pat_completeness auto
termination
  by (relation "measure (\<lambda>(E, c, method, url, headers, body, attempt, lastErr, sent).
        nat (maxRetries c + 1 - attempt))") auto

declare attempts.simps [simp del]

definition doRequest ::
  "'p http_env \<Rightarrow> Client \<Rightarrow> string \<Rightarrow> string \<Rightarrow> 'p option \<Rightarrow> header
    \<Rightarrow> (Response option \<times> error option) \<times> Request list" where
  "doRequest E c method endpoint payload headers =
    (let url = baseURL c @ endpoint
     in case payload of
          None \<Rightarrow> attempts E c method url headers None 0 None []
        | Some p \<Rightarrow>
           (case json_Marshal E p of
              Inl e \<Rightarrow> ((None, Some (MarshalFailed e)), [])
            | Inr jsonData \<Rightarrow> attempts E c method url headers (Some jsonData) 0 None []))"

text \<open>
  \<^verbatim>\<open>parseJSONResponse\<close>. The two uses of \<^verbatim>\<open>json.Unmarshal\<close> are parameters:
  \<open>unmarshalAPIError\<close> decodes a body into an \<^verbatim>\<open>APIError\<close> (\<open>None\<close> when
  \<^verbatim>\<open>json.Unmarshal\<close> returns an error), \<open>unmarshalTarget\<close> decodes it into the
  caller's target type.
\<close>

definition parseJSONResponse ::
  "(string \<Rightarrow> APIError option) \<Rightarrow> (string \<Rightarrow> string + 'a) \<Rightarrow> Response \<Rightarrow> error + 'a" where
  "parseJSONResponse unmarshalAPIError unmarshalTarget resp =
    (case RespBody resp of
       Inl e \<Rightarrow> Inl (ReadBodyFailed e)
     | Inr body \<Rightarrow>
        if Status resp \<ge> 400 then
          (case unmarshalAPIError body of
             Some apiErr \<Rightarrow>
               if Message apiErr \<noteq> [] then Inl (APIErr (apiErr\<lparr>StatusCode := Status resp\<rparr>))
               else Inl (APIErr \<lparr>StatusCode = Status resp, Message = body\<rparr>)
           | None \<Rightarrow> Inl (APIErr \<lparr>StatusCode = Status resp, Message = body\<rparr>))
        else
          (case unmarshalTarget body of
             Inl e \<Rightarrow> Inl (UnmarshalFailed e)
           | Inr v \<Rightarrow> Inr v))"

text \<open>
  \<^verbatim>\<open>As[T]\<close>: \<^verbatim>\<open>doRequest\<close>, then \<^verbatim>\<open>parseJSONResponse\<close> unless an error came
  back. Handing \<^verbatim>\<open>parseJSONResponse\<close> a \<^verbatim>\<open>nil\<close> response dereferences a nil
  pointer: the call panics.
\<close>

datatype 'a exec = Panics | Returns 'a

definition As ::
  "'p http_env \<Rightarrow> (string \<Rightarrow> APIError option) \<Rightarrow> (string \<Rightarrow> string + 'a) \<Rightarrow> Client
    \<Rightarrow> string \<Rightarrow> string \<Rightarrow> 'p option \<Rightarrow> header \<Rightarrow> (error + 'a) exec" where
  "As E unmarshalAPIError unmarshalTarget c method endpoint payload headers =
    (case fst (doRequest E c method endpoint payload headers) of
       (_, Some err) \<Rightarrow> Returns (Inl err)
     | (Some resp, None) \<Rightarrow> Returns (parseJSONResponse unmarshalAPIError unmarshalTarget resp)
     | (None, None) \<Rightarrow> Panics)"


section \<open>Package api: the chunked upload\<close>

definition CHUNK_SIZE :: nat where
  "CHUNK_SIZE = 1024 * 1024 * 10"

record UploadPart =
  ETag :: string
  PartNumber :: nat

record 'f InitUploadResponse =
  Key :: string
  Filename :: string
  UploadId :: string
  UploadUrls :: "string list"
  File :: 'f

record GaiaApiConfig =
  BaseUrl :: string
  ApiKey :: string

text \<open>
  \<^verbatim>\<open>NewGaiaApi\<close>: the client of the API carries the bearer credential as a default
  header; every other setting is left at its zero value.
\<close>

definition NewGaiaApi :: "GaiaApiConfig \<Rightarrow> Client" where
  "NewGaiaApi cfg =
    New \<lparr>BaseURL = BaseUrl cfg, Timeout = 0, MaxRetries = 0, RetryDelay = 0, Debug = False,
         DefaultHeaders = [''Authorization'' \<mapsto> ''Bearer '' @ ApiKey cfg]\<rparr>"

text \<open>\<^verbatim>\<open>strings.HasPrefix\<close>.\<close>

definition HasPrefix :: "string \<Rightarrow> string \<Rightarrow> bool" where
  "HasPrefix s pre = (take (length pre) s = pre)"

text \<open>
  The slice expression \<^verbatim>\<open>s[lo:hi]\<close> on a byte slice: Go panics unless
  \<open>lo \<le> hi\<close> and \<open>hi\<close> is within the capacity. Every \<open>hi\<close> computed below is at
  most the length, so the length stands for the capacity. \<open>None\<close> is the panic;
  otherwise the slice holds the bytes from \<open>lo\<close> up to, not including, \<open>hi\<close>.
\<close>

definition byteRange :: "string \<Rightarrow> nat \<Rightarrow> nat \<Rightarrow> string" where
  "byteRange s lo hi = take (hi - lo) (drop lo s)"

definition slice :: "string \<Rightarrow> nat \<Rightarrow> nat \<Rightarrow> string option" where
  "slice s lo hi =
    (if lo \<le> hi \<and> hi \<le> length s then Some (byteRange s lo hi) else None)"

text \<open>The chunk boundaries computed by the task for index \<open>i\<close>.\<close>

definition chunkBounds :: "nat \<Rightarrow> nat \<Rightarrow> nat \<times> nat" where
  "chunkBounds i len =
    (let start = i * CHUNK_SIZE;
         end0 = start + CHUNK_SIZE;
         end1 = (if end0 > len then len else end0)
     in (start, end1))"

text \<open>
  The body of the goroutine started for index \<open>i\<close> and destination \<open>url\<close>. Its
  result is the pair of slots \<^verbatim>\<open>(uploadParts[i], uploadErrs[i])\<close> it leaves behind,
  or a panic. \<open>uploadChunk\<close> is the method \<^verbatim>\<open>a.uploadChunk\<close>.
\<close>

definition chunkTask ::
  "(string \<Rightarrow> string \<Rightarrow> nat \<Rightarrow> ('e + UploadPart) exec) \<Rightarrow> string \<Rightarrow> nat \<Rightarrow> string
    \<Rightarrow> (UploadPart option \<times> 'e option) exec" where
  "chunkTask uploadChunk imageData i url =
    (case chunkBounds i (length imageData) of
       (start, end1) \<Rightarrow>
         (case slice imageData start end1 of
            None \<Rightarrow> Panics
          | Some chunk \<Rightarrow>
             (let partNumber = i + 1
              in case uploadChunk chunk url partNumber of
                   Panics \<Rightarrow> Panics
                 | Returns (Inl err) \<Rightarrow> Returns (None, Some err)
                 | Returns (Inr part) \<Rightarrow> Returns (Some part, None))))"

text \<open>
  The methods of \<^verbatim>\<open>gaiaApi\<close> that \<^verbatim>\<open>UploadImages\<close> calls. They perform the network
  work and are parameters of the pipeline; \<^verbatim>\<open>uploadChunk\<close> and \<^verbatim>\<open>completeUpload\<close>
  are given below. \<open>do_processImage\<close> yields the image bytes with width and height
  (the MIME type is discarded by the caller), or the text of its error.
\<close>

record ('e, 'f, 'r) methods =
  do_processImage :: "string \<Rightarrow> string + (string \<times> int \<times> int)"
  do_initUploadImage :: "string \<Rightarrow> int \<Rightarrow> int \<Rightarrow> 'r \<Rightarrow> string + 'f InitUploadResponse"
  do_uploadChunk :: "string \<Rightarrow> string \<Rightarrow> nat \<Rightarrow> ('e + UploadPart) exec"
  do_completeUpload :: "string \<Rightarrow> string \<Rightarrow> UploadPart list \<Rightarrow> string option"

datatype call =
    CallProcessImage string
  | CallInitUploadImage string int int
  | CallUploadChunk string string nat
  | CallCompleteUpload string string "UploadPart list"

fun is_CallCompleteUpload :: "call \<Rightarrow> bool" where
  "is_CallCompleteUpload (CallCompleteUpload k u ps) = True"
| "is_CallCompleteUpload _ = False"

text \<open>
  All chunk tasks are started and joined (\<^verbatim>\<open>wg.Wait\<close>). Each task writes only its
  own two slots, so the slots after the join do not depend on the interleaving
  and the tasks are run here in index order. A panic in any goroutine ends the
  process.
\<close>

fun runTasks ::
  "(string \<Rightarrow> string \<Rightarrow> nat \<Rightarrow> ('e + UploadPart) exec) \<Rightarrow> string \<Rightarrow> nat \<Rightarrow> string list
    \<Rightarrow> (UploadPart option list \<times> 'e option list) exec" where
  "runTasks uploadChunk imageData i [] = Returns ([], [])"
| "runTasks uploadChunk imageData i (url # urls) =
    (case chunkTask uploadChunk imageData i url of
       Panics \<Rightarrow> Panics
     | Returns (part, err) \<Rightarrow>
        (case runTasks uploadChunk imageData (i + 1) urls of
           Panics \<Rightarrow> Panics
         | Returns (uploadParts, uploadErrs) \<Rightarrow> Returns (part # uploadParts, err # uploadErrs)))"

text \<open>The calls of \<^verbatim>\<open>a.uploadChunk\<close> made by the tasks that reach it.\<close>

fun taskCalls :: "string \<Rightarrow> nat \<Rightarrow> string list \<Rightarrow> call list" where
  "taskCalls imageData i [] = []"
| "taskCalls imageData i (url # urls) =
    (case chunkBounds i (length imageData) of
       (start, end1) \<Rightarrow>
         (case slice imageData start end1 of
            None \<Rightarrow> taskCalls imageData (i + 1) urls
          | Some chunk \<Rightarrow> CallUploadChunk chunk url (i + 1) # taskCalls imageData (i + 1) urls))"

fun hasErrors :: "'e option list \<Rightarrow> bool" where
  "hasErrors [] = False"
| "hasErrors (err # errs) = (if err \<noteq> None then True else hasErrors errs)"

fun withoutNil :: "UploadPart option list \<Rightarrow> UploadPart list" where
  "withoutNil [] = []"
| "withoutNil (None # ps) = withoutNil ps"
| "withoutNil (Some p # ps) = p # withoutNil ps"

datatype 'f outcome = Uploaded 'f | Failed string | Crashed

text \<open>
  One iteration of the loop of \<^verbatim>\<open>UploadImages\<close>: the pipeline for one image. The
  result is what the iteration appends (the uploaded file, or the reason that
  goes into \<^verbatim>\<open>failedFiles\<close>) together with the method calls it made.
\<close>

definition uploadImage ::
  "('e, 'f, 'r) methods \<Rightarrow> 'r \<Rightarrow> string \<Rightarrow> 'f outcome \<times> call list" where
  "uploadImage M associatedResource imageUrl =
    (if \<not> HasPrefix imageUrl ''http'' then
       (Failed ''URL must start with http:// or https://'', [])
     else
       (case do_processImage M imageUrl of
          Inl err \<Rightarrow> (Failed err, [CallProcessImage imageUrl])
        | Inr (imageData, w, h) \<Rightarrow>
           (case do_initUploadImage M imageData w h associatedResource of
              Inl err \<Rightarrow> (Failed err, [CallProcessImage imageUrl, CallInitUploadImage imageData w h])
            | Inr initUploadResponse \<Rightarrow>
               (let calls = [CallProcessImage imageUrl, CallInitUploadImage imageData w h]
                             @ taskCalls imageData 0 (UploadUrls initUploadResponse)
                in case runTasks (do_uploadChunk M) imageData 0 (UploadUrls initUploadResponse) of
                     Panics \<Rightarrow> (Crashed, calls)
                   | Returns (uploadParts, uploadErrs) \<Rightarrow>
                       if hasErrors uploadErrs then
                         (Failed ''Failed to upload some chunks'', calls)
                       else
                         (let parts = withoutNil uploadParts;
                              calls' = calls @ [CallCompleteUpload (Key initUploadResponse)
                                                  (UploadId initUploadResponse) parts]
                          in case do_completeUpload M (Key initUploadResponse)
                                    (UploadId initUploadResponse) parts of
                               Some err \<Rightarrow> (Failed err, calls')
                             | None \<Rightarrow> (Uploaded (File initUploadResponse), calls'))))))"

text \<open>
  \<^verbatim>\<open>UploadImages\<close>: the loop over the references and the final decision. The
  aggregate error carries the list \<^verbatim>\<open>failedFiles\<close>.
\<close>

fun uploadLoop ::
  "('e, 'f, 'r) methods \<Rightarrow> 'r \<Rightarrow> string list \<Rightarrow> 'f list \<Rightarrow> (string \<times> string) list \<Rightarrow> call list
    \<Rightarrow> ((string \<times> string) list + 'f list) exec \<times> call list" where
  "uploadLoop M associatedResource [] uploadedFiles failedFiles calls =
    (if length failedFiles > 0 then (Returns (Inl failedFiles), calls)
     else (Returns (Inr uploadedFiles), calls))"
| "uploadLoop M associatedResource (imageUrl # imageUrls) uploadedFiles failedFiles calls =
    (case uploadImage M associatedResource imageUrl of
       (Crashed, cs) \<Rightarrow> (Panics, calls @ cs)
     | (Failed reason, cs) \<Rightarrow>
         uploadLoop M associatedResource imageUrls uploadedFiles
           (failedFiles @ [(imageUrl, reason)]) (calls @ cs)
     | (Uploaded file, cs) \<Rightarrow>
         uploadLoop M associatedResource imageUrls (uploadedFiles @ [file]) failedFiles
           (calls @ cs))"

definition UploadImages ::
  "('e, 'f, 'r) methods \<Rightarrow> string list \<Rightarrow> 'r
    \<Rightarrow> ((string \<times> string) list + 'f list) exec \<times> call list" where
  "UploadImages M imageUrls associatedResource =
    uploadLoop M associatedResource imageUrls [] [] []"


subsection \<open>The two revisions of \<^verbatim>\<open>uploadChunk\<close>\<close>

text \<open>\<^verbatim>\<open>fmt.Sprintf("%d", n)\<close> for a length.\<close>

definition digit :: "nat \<Rightarrow> char" where
  "digit d = char_of (48 + d)"

function itoa :: "nat \<Rightarrow> string" where
  "itoa n = (if n < 10 then [digit n] else itoa (n div 10) @ [digit (n mod 10)])"
  by pat_completeness auto
termination
  by (relation "measure id") auto

declare itoa.simps [simp del]

text \<open>\<^verbatim>\<open>Header.Get\<close>: the empty string when the header is absent.\<close>

definition Get :: "header \<Rightarrow> string \<Rightarrow> string" where
  "Get h k = (case h k of None \<Rightarrow> [] | Some v \<Rightarrow> v)"

datatype chunk_error =
    ChunkCreateRequestFailed nat string
  | ChunkUploadFailed nat string
  | ChunkStatusNotOK nat int "string + string"
  | ChunkMissingETag nat

text \<open>
  The revision of \<^verbatim>\<open>uploadChunk\<close> in \<^verbatim>\<open>src/unnamed/part_006\<close> (the same text is in
  \<^verbatim>\<open>src/unnamed/part_008\<close>): one request of its own, built here and handed to a
  fresh \<^verbatim>\<open>http.Client\<close>, which is the parameter \<open>httpDo\<close>. The result comes
  with the requests handed to that client. The canonical form of the header
  name \<^verbatim>\<open>ETag\<close> is \<^verbatim>\<open>Etag\<close>.
\<close>

definition uploadChunk ::
  "(string \<Rightarrow> string \<Rightarrow> string option) \<Rightarrow> (Request \<Rightarrow> string + Response) \<Rightarrow> string \<Rightarrow> string
    \<Rightarrow> nat \<Rightarrow> (chunk_error + UploadPart) \<times> Request list" where
  "uploadChunk newRequestErr httpDo chunk url partNumber =
    (case newRequestErr ''PUT'' url of
       Some e \<Rightarrow> (Inl (ChunkCreateRequestFailed partNumber e), [])
     | None \<Rightarrow>
        (let req = \<lparr>Method = ''PUT'', URL = url,
                    ReqHeader = [''Content-Type'' \<mapsto> ''application/octet-stream'',
                                 ''Content-Length'' \<mapsto> itoa (length chunk)],
                    ReqBody = chunk, ContentLength = length chunk\<rparr>
         in case httpDo req of
              Inl e \<Rightarrow> (Inl (ChunkUploadFailed partNumber e), [req])
            | Inr resp \<Rightarrow>
               if Status resp \<noteq> 200 then
                 (Inl (ChunkStatusNotOK partNumber (Status resp) (RespBody resp)), [req])
               else
                 (let etag = Get (RespHeader resp) ''Etag''
                  in if etag = [] then (Inl (ChunkMissingETag partNumber), [req])
                     else (Inr \<lparr>ETag = etag, PartNumber = partNumber\<rparr>, [req]))))"

text \<open>
  The revision of \<^verbatim>\<open>uploadChunk\<close> in \<^verbatim>\<open>src/internal/api/api.go\<close>: the chunk is
  the payload of \<^verbatim>\<open>a.client.PUT\<close>, that is of \<^verbatim>\<open>doRequest\<close>. Reading the header
  of a \<^verbatim>\<open>nil\<close> response panics.
\<close>

definition uploadChunk_PUT ::
  "string http_env \<Rightarrow> Client \<Rightarrow> string \<Rightarrow> string \<Rightarrow> nat
    \<Rightarrow> (error + UploadPart) exec \<times> Request list" where
  "uploadChunk_PUT E c chunk url partNumber =
    (case doRequest E c ''PUT'' url (Some chunk)
            [''Content-Type'' \<mapsto> ''application/octet-stream''] of
       ((_, Some err), sent) \<Rightarrow> (Returns (Inl err), sent)
     | ((Some req, None), sent) \<Rightarrow>
         (Returns (Inr \<lparr>ETag = Get (RespHeader req) ''Etag'', PartNumber = partNumber\<rparr>), sent)
     | ((None, None), sent) \<Rightarrow> (Panics, sent))"

section \<open>Package imageutil: resizing\<close>

text \<open>
  \<^verbatim>\<open>float64\<close> values: the finite ones are rationals, rounded after every operation
  to the nearest value with a 53-bit significand, ties to even. The integers of
  the program are 64-bit, so no quotient or product below leaves the range of
  the normal numbers and the exponent is not bounded here. The sign of zero is
  not kept: every divisor is an integer converted to \<^verbatim>\<open>float64\<close>, whose zero is
  positive, and no other operation below can tell the two zeros apart.
\<close>

datatype float64 = Finite rat | PosInf | NegInf | NaN

text \<open>The exponent of the binade of a positive rational: \<open>2 ^ e \<le> x < 2 ^ (e + 1)\<close>.\<close>

definition floorlog2 :: "rat \<Rightarrow> int" where
  "floorlog2 x =
    (case quotient_of x of
       (p, q) \<Rightarrow> (let d = bitlen p - bitlen q in if 2 powi d \<le> x then d else d - 1))"

definition roundHalfEven :: "rat \<Rightarrow> int" where
  "roundHalfEven m =
    (let f = \<lfloor>m\<rfloor>; r = m - of_int f
     in if r < 1 / 2 then f else if 1 / 2 < r then f + 1 else if even f then f else f + 1)"

definition round64 :: "rat \<Rightarrow> rat" where
  "round64 x =
    (if x = 0 then 0
     else (let e = floorlog2 \<bar>x\<bar> - 52
           in sgn x * of_int (roundHalfEven (\<bar>x\<bar> / 2 powi e)) * 2 powi e))"

definition float64_of_int :: "int \<Rightarrow> float64" where
  "float64_of_int n = Finite (round64 (of_int n))"

fun fdiv :: "float64 \<Rightarrow> float64 \<Rightarrow> float64" where
  "fdiv (Finite a) (Finite b) =
    (if b = 0 then (if a = 0 then NaN else if 0 < a then PosInf else NegInf)
     else Finite (round64 (a / b)))"
| "fdiv (Finite a) PosInf = Finite 0"
| "fdiv (Finite a) NegInf = Finite 0"
| "fdiv PosInf (Finite b) = (if 0 \<le> b then PosInf else NegInf)"
| "fdiv NegInf (Finite b) = (if 0 \<le> b then NegInf else PosInf)"
| "fdiv _ _ = NaN"

fun fmul :: "float64 \<Rightarrow> float64 \<Rightarrow> float64" where
  "fmul (Finite a) (Finite b) = Finite (round64 (a * b))"
| "fmul (Finite a) PosInf = (if a = 0 then NaN else if 0 < a then PosInf else NegInf)"
| "fmul (Finite a) NegInf = (if a = 0 then NaN else if 0 < a then NegInf else PosInf)"
| "fmul PosInf (Finite b) = (if b = 0 then NaN else if 0 < b then PosInf else NegInf)"
| "fmul NegInf (Finite b) = (if b = 0 then NaN else if 0 < b then NegInf else PosInf)"
| "fmul PosInf PosInf = PosInf"
| "fmul NegInf NegInf = PosInf"
| "fmul PosInf NegInf = NegInf"
| "fmul NegInf PosInf = NegInf"
| "fmul _ _ = NaN"

fun flt :: "float64 \<Rightarrow> float64 \<Rightarrow> bool" where
  "flt (Finite a) (Finite b) = (a < b)"
| "flt (Finite a) PosInf = True"
| "flt NegInf (Finite b) = True"
| "flt NegInf PosInf = True"
| "flt _ _ = False"

text \<open>
  The conversion \<^verbatim>\<open>int(f)\<close> drops the fraction (towards zero). Go leaves the
  result open when the value is not representable: \<open>None\<close>.
\<close>

definition toward_zero :: "rat \<Rightarrow> int" where
  "toward_zero x = (if 0 \<le> x then \<lfloor>x\<rfloor> else \<lceil>x\<rceil>)"

fun int_of_float64 :: "float64 \<Rightarrow> int option" where
  "int_of_float64 (Finite x) =
    (let n = toward_zero x in if - (2 ^ 63) \<le> n \<and> n < 2 ^ 63 then Some n else None)"
| "int_of_float64 _ = None"

text \<open>
  The configuration of the processor, without its field \<^verbatim>\<open>Timeout\<close>: that one is
  only passed on to the HTTP client, where it bounds the time a request may take.
\<close>

record ProcessorConfig =
  MaxWidth :: int
  MaxHeight :: int
  JPEGQuality :: int
  UserAgent :: string

datatype interpolator = NearestNeighbor | ApproxBiLinear | BiLinear | CatmullRom

datatype resized = Unchanged | Scaled interpolator int int | Unspecified

text \<open>
  \<^verbatim>\<open>resizeImage\<close>, on the width and height of the bounds of the source image: the
  source itself, or a new image of the computed size filled by
  \<^verbatim>\<open>draw.BiLinear.Scale\<close>. The other fields of the configuration are not read.
\<close>

definition resizeImage :: "ProcessorConfig \<Rightarrow> int \<Rightarrow> int \<Rightarrow> resized" where
  "resizeImage config srcWidth srcHeight =
    (let maxWidth = MaxWidth config; maxHeight = MaxHeight config
     in if srcWidth \<le> maxWidth \<and> srcHeight \<le> maxHeight then Unchanged
        else
          (let scaleX = fdiv (float64_of_int maxWidth) (float64_of_int srcWidth);
               scaleY = fdiv (float64_of_int maxHeight) (float64_of_int srcHeight);
               scale = (if flt scaleY scaleX then scaleY else scaleX);
               newWidth = int_of_float64 (fmul (float64_of_int srcWidth) scale);
               newHeight = int_of_float64 (fmul (float64_of_int srcHeight) scale)
           in case (newWidth, newHeight) of
                (Some w, Some h) \<Rightarrow> Scaled BiLinear w h
              | _ \<Rightarrow> Unspecified))"

text \<open>
  The scaling rule in the words of the specification, in exact arithmetic:
  \<open>scale = min (maxWidth / srcWidth) (maxHeight / srcHeight)\<close>, unchanged when
  \<open>scale \<ge> 1\<close>, otherwise rounded products.
\<close>

definition resize_spec :: "ProcessorConfig \<Rightarrow> int \<Rightarrow> int \<Rightarrow> resized" where
  "resize_spec config srcWidth srcHeight =
    (let scale = min (of_int (MaxWidth config) / of_int srcWidth :: rat)
                     (of_int (MaxHeight config) / of_int srcHeight)
     in if 1 \<le> scale then Unchanged
        else Scaled BiLinear (round (of_int srcWidth * scale)) (round (of_int srcHeight * scale)))"

section \<open>Package imageutil: fetching the source image\<close>

subsection \<open>The standard library under \<^verbatim>\<open>downloadImage\<close>\<close>

text \<open>
  \<^verbatim>\<open>downloadImage\<close> hands the reference to \<^verbatim>\<open>http.NewRequestWithContext\<close>, which
  parses it with \<^verbatim>\<open>url.Parse\<close>, and the request to \<^verbatim>\<open>Do\<close> of a client without a
  transport of its own, that is to \<^verbatim>\<open>http.DefaultTransport\<close>. What the library
  decides from the text of the reference alone is written out: the scheme, and
  the refusal of a scheme other than \<open>http\<close> and \<open>https\<close>. Everything else is a
  parameter:

    \<^item> \<open>url_tail_error\<close>: the error text, if any, of \<^verbatim>\<open>url.Parse\<close> on a reference
      without control character whose scheme could be split off (the authority,
      the path, the query or the fragment is malformed);
    \<^item> \<open>URL_String\<close>: the parsed reference written back by \<^verbatim>\<open>URL.String\<close>, password
      removed, as it appears in the errors of the client;
    \<^item> \<open>strconv_Quote\<close>: the verb \<^verbatim>\<open>%q\<close>;
    \<^item> \<open>connect\<close>: the rest of \<^verbatim>\<open>Client.Do\<close> for a request with scheme \<open>http\<close> or
      \<open>https\<close>: name resolution, connection, the exchange, redirects and the
      timeout of the client. It yields the text of an error or the response;
    \<^item> the image and encoding packages: \<^verbatim>\<open>image.Decode\<close>, the width and height of
      the bounds of an image, the image made by \<^verbatim>\<open>image.NewRGBA\<close> and \<^verbatim>\<open>Scale\<close>
      (its size is \<open>None\<close> where the language leaves the conversion to \<^verbatim>\<open>int\<close>
      open), \<^verbatim>\<open>jpeg.Encode\<close> with its quality, \<^verbatim>\<open>png.Encode\<close>, and the two
      directions of \<^verbatim>\<open>base64.StdEncoding\<close>.
\<close>

record 'i library =
  url_tail_error :: "string \<Rightarrow> string option"
  URL_String :: "string \<Rightarrow> string"
  strconv_Quote :: "string \<Rightarrow> string"
  connect :: "Request \<Rightarrow> string + Response"
  image_Decode :: "string \<Rightarrow> string + ('i \<times> string)"
  Dx :: "'i \<Rightarrow> int"
  Dy :: "'i \<Rightarrow> int"
  draw_Scale :: "interpolator \<Rightarrow> (int \<times> int) option \<Rightarrow> 'i \<Rightarrow> 'i"
  jpeg_Encode :: "int \<Rightarrow> 'i \<Rightarrow> string + string"
  png_Encode :: "'i \<Rightarrow> string + string"
  EncodeToString :: "string \<Rightarrow> string"
  DecodeString :: "string \<Rightarrow> string + string"

text \<open>The character classes of \<^verbatim>\<open>net/url\<close> and \<^verbatim>\<open>net/http\<close>, on bytes.\<close>

definition isLower :: "char \<Rightarrow> bool" where
  "isLower c = (97 \<le> (of_char c :: nat) \<and> (of_char c :: nat) \<le> 122)"

definition isUpper :: "char \<Rightarrow> bool" where
  "isUpper c = (65 \<le> (of_char c :: nat) \<and> (of_char c :: nat) \<le> 90)"

definition isDigit :: "char \<Rightarrow> bool" where
  "isDigit c = (48 \<le> (of_char c :: nat) \<and> (of_char c :: nat) \<le> 57)"

definition stringContainsCTLByte :: "string \<Rightarrow> bool" where
  "stringContainsCTLByte s = list_ex (\<lambda>c. (of_char c :: nat) < 32 \<or> (of_char c :: nat) = 127) s"

definition isPrint :: "string \<Rightarrow> bool" where
  "isPrint s = list_all (\<lambda>c. 32 \<le> (of_char c :: nat) \<and> (of_char c :: nat) \<le> 126) s"

text \<open>
  \<^verbatim>\<open>strings.ToLower\<close> on ASCII text, which is all it is applied to below: a
  scheme consists of ASCII letters, digits, \<open>+\<close>, \<open>-\<close> and \<open>.\<close>, and the method is
  printable ASCII where it is lowered.
\<close>

definition ToLower :: "string \<Rightarrow> string" where
  "ToLower s = map (\<lambda>c. if isUpper c then char_of ((of_char c :: nat) + 32) else c) s"

text \<open>
  \<^verbatim>\<open>getScheme\<close> of \<^verbatim>\<open>net/url\<close>: the loop over the bytes of the reference, with the
  bytes already passed in \<open>seen\<close>. The result is the error \<open>missing protocol scheme\<close>,
  or the scheme (empty when there is none) and what follows it.
\<close>

fun getScheme_loop :: "string \<Rightarrow> string \<Rightarrow> string \<Rightarrow> string + (string \<times> string)" where
  "getScheme_loop rawURL seen [] = Inr ([], rawURL)"
| "getScheme_loop rawURL seen (c # cs) =
    (if isLower c \<or> isUpper c then getScheme_loop rawURL (seen @ [c]) cs
     else if isDigit c \<or> c = CHR ''+'' \<or> c = CHR ''-'' \<or> c = CHR ''.'' then
       (if seen = [] then Inr ([], rawURL) else getScheme_loop rawURL (seen @ [c]) cs)
     else if c = CHR '':'' then
       (if seen = [] then Inl ''missing protocol scheme'' else Inr (seen, cs))
     else Inr ([], rawURL))"

definition getScheme :: "string \<Rightarrow> string + (string \<times> string)" where
  "getScheme rawURL = getScheme_loop rawURL [] rawURL"

text \<open>The reference up to its fragment: \<^verbatim>\<open>strings.Cut(rawURL, "#")\<close>.\<close>

definition beforeFragment :: "string \<Rightarrow> string" where
  "beforeFragment rawURL = takeWhile (\<lambda>c. c \<noteq> CHR ''#'') rawURL"

text \<open>
  The field \<^verbatim>\<open>Scheme\<close> of the URL that \<^verbatim>\<open>url.Parse\<close> makes of a reference: the
  scheme split off by \<^verbatim>\<open>getScheme\<close>, in lower case; empty when the reference has
  none.
\<close>

definition Scheme :: "string \<Rightarrow> string" where
  "Scheme rawURL =
    (case getScheme (beforeFragment rawURL) of
       Inl err \<Rightarrow> []
     | Inr (scheme, rest) \<Rightarrow> ToLower scheme)"

text \<open>The text of a \<^verbatim>\<open>url.Error\<close>: operation, quoted URL, cause.\<close>

definition url_Error :: "'i library \<Rightarrow> string \<Rightarrow> string \<Rightarrow> string \<Rightarrow> string" where
  "url_Error L op url err = op @ '' '' @ strconv_Quote L url @ '': '' @ err"

text \<open>
  \<^verbatim>\<open>url.Parse\<close>, as far as it can fail: on a control character, on a colon with
  no scheme before it, and on what the parameter stands for. The reference
  \<open>*\<close> is accepted before \<^verbatim>\<open>getScheme\<close> is reached; \<^verbatim>\<open>getScheme\<close> finds no scheme
  and no error in it either.
\<close>

definition Parse_error :: "'i library \<Rightarrow> string \<Rightarrow> string option" where
  "Parse_error L rawURL =
    (let u = beforeFragment rawURL
     in if stringContainsCTLByte u then
          Some (url_Error L ''parse'' u ''net/url: invalid control character in URL'')
        else
          (case getScheme u of
             Inl err \<Rightarrow> Some (url_Error L ''parse'' u err)
           | Inr (scheme, rest) \<Rightarrow> url_tail_error L rawURL))"

text \<open>
  \<^verbatim>\<open>http.NewRequestWithContext\<close> with a valid method, a context and no body, as
  \<^verbatim>\<open>downloadImage\<close> calls it: it fails exactly when the reference does not parse.
  The request keeps the reference; its parsed form is a function of it.
\<close>

definition NewRequestWithContext :: "'i library \<Rightarrow> string \<Rightarrow> string \<Rightarrow> string + Request" where
  "NewRequestWithContext L method url =
    (case Parse_error L url of
       Some err \<Rightarrow> Inl err
     | None \<Rightarrow> Inr \<lparr>Method = method, URL = url, ReqHeader = Map.empty, ReqBody = [],
                    ContentLength = 0\<rparr>)"

text \<open>\<^verbatim>\<open>urlErrorOp\<close>: the method as it is named in the errors of the client.\<close>

definition urlErrorOp :: "string \<Rightarrow> string" where
  "urlErrorOp method =
    (if method = [] then ''Get''
     else if isPrint method then hd method # tl (ToLower method)
     else method)"

text \<open>
  \<^verbatim>\<open>Client.Do\<close> on the default transport. \<^verbatim>\<open>Transport.roundTrip\<close> looks at the
  scheme of the request before it does anything else with it: the only
  alternate protocol the default transport registers is for \<open>https\<close>, and a
  scheme other than \<open>http\<close> and \<open>https\<close> is answered with the error
  \<open>unsupported protocol scheme\<close>, which \<^verbatim>\<open>Do\<close> wraps into a \<^verbatim>\<open>url.Error\<close>. No name is
  resolved and no connection is opened for such a request. The second component
  lists the requests that passed this check and went on to the rest of the
  transport.
\<close>

definition Do :: "'i library \<Rightarrow> Request \<Rightarrow> (string + Response) \<times> Request list" where
  "Do L req =
    (if Scheme (URL req) \<noteq> ''http'' \<and> Scheme (URL req) \<noteq> ''https'' then
       (Inl (url_Error L (urlErrorOp (Method req)) (URL_String L (URL req))
               (''unsupported protocol scheme '' @ strconv_Quote L (Scheme (URL req)))), [])
     else
       (case connect L req of
          Inl err \<Rightarrow>
            (Inl (url_Error L (urlErrorOp (Method req)) (URL_String L (URL req)) err), [req])
        | Inr resp \<Rightarrow> (Inr resp, [req])))"

subsection \<open>The processor\<close>

text \<open>\<^verbatim>\<open>fmt.Sprintf("%d", n)\<close> for a status code.\<close>

definition fmt_d :: "int \<Rightarrow> string" where
  "fmt_d n = (if 0 \<le> n then itoa (nat n) else CHR ''-'' # itoa (nat (- n)))"

text \<open>\<^verbatim>\<open>DefaultConfig\<close>.\<close>

definition DefaultConfig :: ProcessorConfig where
  "DefaultConfig = \<lparr>MaxWidth = 1024, MaxHeight = 1024, JPEGQuality = 90,
                      UserAgent = ''Gaia-MCP-Go/1.0''\<rparr>"

text \<open>
  \<^verbatim>\<open>downloadImage\<close>: the decoded image and its format, or the text of the error,
  with the requests that reached the connection stage.
\<close>

definition downloadImage ::
  "'i library \<Rightarrow> ProcessorConfig \<Rightarrow> string \<Rightarrow> (string + ('i \<times> string)) \<times> Request list" where
  "downloadImage L config url =
    (case NewRequestWithContext L ''GET'' url of
       Inl err \<Rightarrow> (Inl (''creating request: '' @ err), [])
     | Inr req0 \<Rightarrow>
        (let req = req0\<lparr>ReqHeader := (ReqHeader req0)(''User-Agent'' \<mapsto> UserAgent config)\<rparr>
         in case Do L req of
              (Inl err, sent) \<Rightarrow> (Inl (''downloading image: '' @ err), sent)
            | (Inr resp, sent) \<Rightarrow>
                if Status resp \<noteq> 200 then
                  (Inl (''unexpected status code: '' @ fmt_d (Status resp)), sent)
                else
                  (case RespBody resp of
                     Inl err \<Rightarrow> (Inl (''reading response body: '' @ err), sent)
                   | Inr data \<Rightarrow>
                      (case image_Decode L data of
                         Inl err \<Rightarrow> (Inl (''decoding image: '' @ err), sent)
                       | Inr (img, format) \<Rightarrow> (Inr (img, format), sent)))))"

text \<open>\<^verbatim>\<open>resizeImage\<close> on the image itself.\<close>

definition resizeImage_of :: "'i library \<Rightarrow> ProcessorConfig \<Rightarrow> 'i \<Rightarrow> 'i" where
  "resizeImage_of L config src =
    (case resizeImage config (Dx L src) (Dy L src) of
       Unchanged \<Rightarrow> src
     | Scaled ip newWidth newHeight \<Rightarrow> draw_Scale L ip (Some (newWidth, newHeight)) src
     | Unspecified \<Rightarrow> draw_Scale L BiLinear None src)"

definition encodeImageToBase64Pure ::
  "'i library \<Rightarrow> ProcessorConfig \<Rightarrow> 'i \<Rightarrow> string \<Rightarrow> string + (string \<times> string)" where
  "encodeImageToBase64Pure L config img format =
    (if format = ''jpeg'' \<or> format = ''jpg'' then
       (case jpeg_Encode L (JPEGQuality config) img of
          Inl err \<Rightarrow> Inl (''encoding JPEG: '' @ err)
        | Inr buf \<Rightarrow> Inr (EncodeToString L buf, ''image/jpeg''))
     else
       (case png_Encode L img of
          Inl err \<Rightarrow> Inl (''encoding PNG: '' @ err)
        | Inr buf \<Rightarrow> Inr (EncodeToString L buf, ''image/png'')))"

definition ProcessImageFromURLForMCP ::
  "'i library \<Rightarrow> ProcessorConfig \<Rightarrow> string \<Rightarrow> (string + (string \<times> string)) \<times> Request list" where
  "ProcessImageFromURLForMCP L config imageURL =
    (case downloadImage L config imageURL of
       (Inl err, sent) \<Rightarrow> (Inl (''downloading image: '' @ err), sent)
     | (Inr (img, format), sent) \<Rightarrow>
        (case encodeImageToBase64Pure L config (resizeImage_of L config img) format of
           Inl err \<Rightarrow> (Inl (''encoding image to base64: '' @ err), sent)
         | Inr encoded \<Rightarrow> (Inr encoded, sent)))"

definition ProcessImageNoResizeForMCP ::
  "'i library \<Rightarrow> string \<Rightarrow> (string + (string \<times> string)) \<times> Request list" where
  "ProcessImageNoResizeForMCP L imageURL =
    ProcessImageFromURLForMCP L (DefaultConfig\<lparr>MaxWidth := 100000, MaxHeight := 100000\<rparr>) imageURL"

definition GetImageDimensions ::
  "'i library \<Rightarrow> string \<Rightarrow> (string + (int \<times> int)) \<times> Request list" where
  "GetImageDimensions L imageURL =
    (case downloadImage L DefaultConfig imageURL of
       (Inl err, sent) \<Rightarrow> (Inl (''downloading image: '' @ err), sent)
     | (Inr (img, format), sent) \<Rightarrow> (Inr (Dx L img, Dy L img), sent))"

subsection \<open>\<^verbatim>\<open>processImage\<close> of package api\<close>

text \<open>
  The bytes and the dimensions of the image behind a reference, or the text of
  the error, with the requests that reached the connection stage: those of the
  download for the bytes, then those of the second download for the dimensions.
\<close>

definition processImage ::
  "'i library \<Rightarrow> string \<Rightarrow> (string + (string \<times> int \<times> int)) \<times> Request list" where
  "processImage L imageUrl =
    (case ProcessImageNoResizeForMCP L imageUrl of
       (Inl err, sent) \<Rightarrow> (Inl (''failed to process image: '' @ err), sent)
     | (Inr (base64Data, mimeType), sent) \<Rightarrow>
        (case DecodeString L base64Data of
           Inl err \<Rightarrow> (Inl (''failed to decode base64 data: '' @ err), sent)
         | Inr imageData \<Rightarrow>
            (case GetImageDimensions L imageUrl of
               (Inl err, sent') \<Rightarrow> (Inl (''failed to get image dimensions: '' @ err), sent @ sent')
             | (Inr (w, h), sent') \<Rightarrow> (Inr (imageData, w, h), sent @ sent'))))"

text \<open>The methods of the pipeline with \<^verbatim>\<open>processImage\<close> as the code has it.\<close>

definition with_processImage ::
  "'i library \<Rightarrow> ('e, 'f, 'r) methods \<Rightarrow> ('e, 'f, 'r) methods" where
  "with_processImage L M = M\<lparr>do_processImage := (\<lambda>imageUrl. fst (processImage L imageUrl))\<rparr>"

section \<open>Concrete scenarios\<close>

text \<open>
  Small concrete runs used to exercise the statements below: an initialize
  response with one destination, a destination that cannot be reached, one that
  answers 200 with an integrity tag, and the methods built from them.
\<close>

definition demo_init :: "unit InitUploadResponse" where
  "demo_init = \<lparr>Key = ''key-1'', Filename = ''image_0.png'', UploadId = ''upload-1'',
                  UploadUrls = [''https://s3.example/part1''], File = ()\<rparr>"

definition any_request_ok :: "string \<Rightarrow> string \<Rightarrow> string option" where
  "any_request_ok method url = None"

definition unreachable :: "Request \<Rightarrow> string + Response" where
  "unreachable req = Inl ''connection reset''"

definition answers_with_etag :: "Request \<Rightarrow> string + Response" where
  "answers_with_etag req =
    Inr \<lparr>Status = 200, RespHeader = [''Etag'' \<mapsto> ''tag''], RespBody = Inr []\<rparr>"

definition demo_methods ::
  "(Request \<Rightarrow> string + Response) \<Rightarrow> (chunk_error, unit, unit) methods" where
  "demo_methods httpDo =
    \<lparr>do_processImage = (\<lambda>imageUrl. Inr (''abc'', 1, 1)),
     do_initUploadImage = (\<lambda>imageData w h r. Inr demo_init),
     do_uploadChunk = (\<lambda>chunk url partNumber.
        Returns (fst (uploadChunk any_request_ok httpDo chunk url partNumber))),
     do_completeUpload = (\<lambda>key uploadId parts. None)\<rparr>"



definition buffer_10MiB :: string where
  "buffer_10MiB = replicate 10485760 (CHR ''a'')"

text \<open>
  Endpoints for the transport. The payload type is a JSON text that marshals to
  itself; the transport reads the whole request body before it answers.
  \<open>always_503\<close> answers every attempt with status 503, \<open>busy_once\<close> answers the
  first attempt with 503 and the later ones with 200.
\<close>

definition respond :: "int \<Rightarrow> string \<Rightarrow> Request \<Rightarrow> round_trip" where
  "respond status body req =
    \<lparr>consumed = length (ReqBody req),
     outcome = Inr \<lparr>Status = status, RespHeader = Map.empty, RespBody = Inr body\<rparr>\<rparr>"

definition always_503 :: "string http_env" where
  "always_503 =
    \<lparr>json_Marshal = Inr, newRequestError = any_request_ok,
     roundTrip = (\<lambda>n. respond 503 ''Service Unavailable'')\<rparr>"

definition busy_once :: "string http_env" where
  "busy_once =
    \<lparr>json_Marshal = Inr, newRequestError = any_request_ok,
     roundTrip = (\<lambda>n. if n = 0 then respond 503 ''Service Unavailable'' else respond 200 ''{}'')\<rparr>"

definition demo_config :: Config where
  "demo_config =
    \<lparr>BaseURL = ''https://api.example'', Timeout = 0, MaxRetries = 0, RetryDelay = 0,
     Debug = False, DefaultHeaders = Map.empty\<rparr>"

text \<open>An endpoint that refuses the first connection, before any byte is read.\<close>

definition refused_once :: "string http_env" where
  "refused_once =
    \<lparr>json_Marshal = Inr, newRequestError = any_request_ok,
     roundTrip = (\<lambda>n req. if n = 0 then \<lparr>consumed = 0, outcome = Inl ''connection refused''\<rparr>
                             else respond 200 ''{}'' req)\<rparr>"

text \<open>
  Decoders for \<^verbatim>\<open>parseJSONResponse\<close>: \<open>decode_error_body\<close> finds a message in
  the first body below, an empty message in the second and fails on any other
  body; \<open>decode_unit\<close> accepts only the empty object.
\<close>

definition body_with_message :: string where
  \<open>body_with_message = ''{"message":"quota exceeded"}''\<close>

definition body_without_message :: string where
  \<open>body_without_message = ''{"detail":"quota exceeded"}''\<close>

definition decode_error_body :: "string \<Rightarrow> APIError option" where
  "decode_error_body body =
    (if body = body_with_message then Some \<lparr>StatusCode = 0, Message = ''quota exceeded''\<rparr>
     else if body = body_without_message then Some \<lparr>StatusCode = 0, Message = []\<rparr>
     else None)"

definition decode_unit :: "string \<Rightarrow> string + unit" where
  "decode_unit body = (if body = ''{}'' then Inr () else Inl ''unexpected end of JSON input'')"

text \<open>
  Scenarios for the chunk upload through the API client. The chunk is the three
  bytes \<open>abc\<close>, whose \<^verbatim>\<open>json.Marshal\<close> is the JSON string of its base64 text. The
  destination answers every request with the given status.
\<close>

definition json_abc :: string where
  \<open>json_abc = ''"YWJj"''\<close>

definition marshal_abc :: "string \<Rightarrow> string + string" where
  "marshal_abc chunk = Inr json_abc"

definition destination :: "int \<Rightarrow> string http_env" where
  "destination status =
    \<lparr>json_Marshal = marshal_abc, newRequestError = any_request_ok,
     roundTrip = (\<lambda>n req.
        \<lparr>consumed = length (ReqBody req),
         outcome = Inr \<lparr>Status = status,
                         RespHeader = (if status = 200 then [''Etag'' \<mapsto> ''tag''] else Map.empty),
                         RespBody = Inr []\<rparr>\<rparr>)\<rparr>"

definition demo_api_config :: GaiaApiConfig where
  "demo_api_config = \<lparr>BaseUrl = ''https://api.example'', ApiKey = ''secret''\<rparr>"

definition uploadChunk_through_client ::
  "int \<Rightarrow> string \<Rightarrow> string \<Rightarrow> nat \<Rightarrow> (error + UploadPart) exec" where
  "uploadChunk_through_client status chunk url partNumber =
    fst (uploadChunk_PUT (destination status) (NewGaiaApi demo_api_config) chunk url partNumber)"

definition forbidden :: "Request \<Rightarrow> string + Response" where
  "forbidden req = Inr \<lparr>Status = 403, RespHeader = Map.empty, RespBody = Inr ''Forbidden''\<rparr>"

text \<open>
  A batch in which the outcome depends on the image: the first reference yields
  the bytes \<open>abc\<close>, every other one \<open>xyz\<close>, and the destination cannot be reached
  for the chunk \<open>abc\<close>.
\<close>

definition first_image :: string where
  "first_image = ''https://example.com/a.png''"

definition reachable_unless_abc :: "Request \<Rightarrow> string + Response" where
  "reachable_unless_abc req =
    (if ReqBody req = ''abc'' then Inl ''connection reset'' else answers_with_etag req)"

definition batch_methods :: "(chunk_error, unit, unit) methods" where
  "batch_methods =
    (demo_methods reachable_unless_abc)
      \<lparr>do_processImage :=
         (\<lambda>imageUrl. if imageUrl = first_image then Inr (''abc'', 1, 1) else Inr (''xyz'', 2, 2))\<rparr>"

text \<open>
  A standard library for the fetch: every reference parses past its scheme and
  is written back unchanged, quoting adds the two quotation marks, the network
  answers every request with the three bytes \<open>PNG\<close>, which decode to an image of
  640 by 480 pixels (an image is its size here) and encode to themselves.
\<close>

definition quoted :: "string \<Rightarrow> string" where
  \<open>quoted s = CHR ''"'' # s @ [CHR ''"'']\<close>

definition demo_library :: "(int \<times> int) library" where
  "demo_library =
    \<lparr>url_tail_error = (\<lambda>rawURL. None),
     URL_String = (\<lambda>rawURL. rawURL),
     strconv_Quote = quoted,
     connect = (\<lambda>req. Inr \<lparr>Status = 200, RespHeader = Map.empty, RespBody = Inr ''PNG''\<rparr>),
     image_Decode = (\<lambda>data. if data = ''PNG'' then Inr ((640, 480), ''png'')
                              else Inl ''image: unknown format''),
     Dx = fst,
     Dy = snd,
     draw_Scale = (\<lambda>ip size src. case size of Some d \<Rightarrow> d | None \<Rightarrow> src),
     jpeg_Encode = (\<lambda>quality img. Inr ''JPG''),
     png_Encode = (\<lambda>img. Inr ''PNG''),
     EncodeToString = (\<lambda>buf. if buf = ''PNG'' then ''UE5H'' else []),
     DecodeString = (\<lambda>s. if s = ''UE5H'' then Inr ''PNG''
                            else Inl ''illegal base64 data at input byte 0'')\<rparr>"

definition unsupported_scheme :: string where
  \<open>unsupported_scheme = ''failed to process image: downloading image: downloading image: Get "httpx://example.com/a.png": unsupported protocol scheme "httpx"''\<close>

definition fetching_methods :: "(chunk_error, unit, unit) methods" where
  "fetching_methods = with_processImage demo_library (demo_methods answers_with_etag)"

section \<open>Properties of the upload pipeline\<close>

lemma runTasks_Returns_iff:
  "runTasks up d i urls = Returns (ps, es) \<longleftrightarrow>
     length ps = length urls \<and> length es = length urls \<and>
     (\<forall>j<length urls. chunkTask up d (i + j) (urls ! j) = Returns (ps ! j, es ! j))"
proof (induction urls arbitrary: i ps es)
  case Nil
  then show ?case by auto
next
  case (Cons url urls)
  show ?case
  proof (cases "chunkTask up d i url")
    case Panics
    then show ?thesis by (auto dest: spec[of _ 0])
  next
    case (Returns pe)
    obtain p e where pe: "pe = (p, e)" by (cases pe)
    show ?thesis
    proof (cases "runTasks up d (i + 1) urls")
      case Panics
      have "\<not> (length (tl ps) = length urls \<and> length (tl es) = length urls \<and>
              (\<forall>j<length urls. chunkTask up d (i + 1 + j) (urls ! j) = Returns (tl ps ! j, tl es ! j)))"
        using Cons.IH[of "i + 1" "tl ps" "tl es"] Panics by simp
      moreover have "length ps = length (url # urls) \<and> length es = length (url # urls) \<and>
          (\<forall>j<length (url # urls). chunkTask up d (i + j) ((url # urls) ! j) = Returns (ps ! j, es ! j))
          \<Longrightarrow> length (tl ps) = length urls \<and> length (tl es) = length urls \<and>
              (\<forall>j<length urls. chunkTask up d (i + 1 + j) (urls ! j) = Returns (tl ps ! j, tl es ! j))"
      proof -
        assume a: "length ps = length (url # urls) \<and> length es = length (url # urls) \<and>
          (\<forall>j<length (url # urls). chunkTask up d (i + j) ((url # urls) ! j) = Returns (ps ! j, es ! j))"
        then obtain p0 ps' e0 es' where s: "ps = p0 # ps'" "es = e0 # es'"
          by (cases ps; cases es) auto
        have "\<forall>j<length urls. chunkTask up d (i + 1 + j) (urls ! j) = Returns (ps' ! j, es' ! j)"
        proof (intro allI impI)
          fix j assume "j < length urls"
          then have "Suc j < length (url # urls)" by simp
          with a have "chunkTask up d (i + Suc j) ((url # urls) ! Suc j) = Returns (ps ! Suc j, es ! Suc j)"
            by blast
          then show "chunkTask up d (i + 1 + j) (urls ! j) = Returns (ps' ! j, es' ! j)"
            using s by simp
        qed
        then show ?thesis using a s by simp
      qed
      ultimately show ?thesis using Panics Returns pe by auto
    next
      case R2: (Returns qe)
      obtain qs fs where qe: "qe = (qs, fs)" by (cases qe)
      have IH: "length qs = length urls \<and> length fs = length urls \<and>
              (\<forall>j<length urls. chunkTask up d (i + 1 + j) (urls ! j) = Returns (qs ! j, fs ! j))"
        using Cons.IH[of "i + 1" qs fs] R2 qe by simp
      have run: "runTasks up d i (url # urls) = Returns (p # qs, e # fs)"
        using Returns pe R2 qe by simp
      show ?thesis
      proof
        assume "runTasks up d i (url # urls) = Returns (ps, es)"
        then have eq: "ps = p # qs" "es = e # fs" using run by auto
        show "length ps = length (url # urls) \<and> length es = length (url # urls) \<and>
          (\<forall>j<length (url # urls). chunkTask up d (i + j) ((url # urls) ! j) = Returns (ps ! j, es ! j))"
        proof (intro conjI allI impI)
          fix j assume "j < length (url # urls)"
          then show "chunkTask up d (i + j) ((url # urls) ! j) = Returns (ps ! j, es ! j)"
            using IH eq Returns pe by (cases j) auto
        qed (use IH eq in auto)
      next
        assume a: "length ps = length (url # urls) \<and> length es = length (url # urls) \<and>
          (\<forall>j<length (url # urls). chunkTask up d (i + j) ((url # urls) ! j) = Returns (ps ! j, es ! j))"
        then obtain p0 ps' e0 es' where s: "ps = p0 # ps'" "es = e0 # es'"
          by (cases ps; cases es) auto
        from a have "chunkTask up d (i + 0) ((url # urls) ! 0) = Returns (ps ! 0, es ! 0)"
          by (metis length_greater_0_conv list.distinct(1))
        then have h0: "p0 = p" "e0 = e" using s Returns pe by auto
        have "\<forall>j<length urls. Returns (ps' ! j, es' ! j) = Returns (qs ! j, fs ! j)"
        proof (intro allI impI)
          fix j assume j: "j < length urls"
          then have "Suc j < length (url # urls)" by simp
          with a have "chunkTask up d (i + Suc j) ((url # urls) ! Suc j) = Returns (ps ! Suc j, es ! Suc j)"
            by blast
          then show "Returns (ps' ! j, es' ! j) = Returns (qs ! j, fs ! j)"
            using s IH j by simp
        qed
        then have "ps' = qs" "es' = fs"
          using a s IH by (auto intro: nth_equalityI)
        then show "runTasks up d i (url # urls) = Returns (ps, es)"
          using run s h0 by simp
      qed
    qed
  qed
qed

lemma runTasks_Panics_iff:
  "runTasks up d i urls = Panics \<longleftrightarrow>
     (\<exists>j<length urls. chunkTask up d (i + j) (urls ! j) = Panics)"
proof (induction urls arbitrary: i)
  case Nil
  then show ?case by simp
next
  case (Cons url urls)
  have shift: "(\<exists>j<length urls. chunkTask up d (i + 1 + j) (urls ! j) = Panics)
      \<longleftrightarrow> (\<exists>j<length (url # urls). 0 < j \<and> chunkTask up d (i + j) ((url # urls) ! j) = Panics)"
  proof
    assume "\<exists>j<length urls. chunkTask up d (i + 1 + j) (urls ! j) = Panics"
    then obtain j where "j < length urls" "chunkTask up d (i + 1 + j) (urls ! j) = Panics" by blast
    then show "\<exists>j<length (url # urls). 0 < j \<and> chunkTask up d (i + j) ((url # urls) ! j) = Panics"
      by (intro exI[of _ "Suc j"]) simp
  next
    assume "\<exists>j<length (url # urls). 0 < j \<and> chunkTask up d (i + j) ((url # urls) ! j) = Panics"
    then obtain j where j: "j < length (url # urls)" "0 < j"
        "chunkTask up d (i + j) ((url # urls) ! j) = Panics" by blast
    then obtain k where "j = Suc k" by (cases j) auto
    with j show "\<exists>j<length urls. chunkTask up d (i + 1 + j) (urls ! j) = Panics"
      by (intro exI[of _ k]) simp
  qed
  show ?case
  proof (cases "chunkTask up d i url")
    case Panics
    then show ?thesis by (auto intro: exI[of _ 0])
  next
    case (Returns pe)
    have first: "\<And>j. j < length (url # urls) \<Longrightarrow>
        chunkTask up d (i + j) ((url # urls) ! j) = Panics \<Longrightarrow> 0 < j"
      using Returns by (case_tac j) auto
    have "runTasks up d i (url # urls) = Panics \<longleftrightarrow> runTasks up d (i + 1) urls = Panics"
      using Returns by (cases pe) (auto split: exec.splits)
    also have "\<dots> \<longleftrightarrow> (\<exists>j<length urls. chunkTask up d (i + 1 + j) (urls ! j) = Panics)"
      by (rule Cons.IH)
    also have "\<dots> \<longleftrightarrow> (\<exists>j<length (url # urls). chunkTask up d (i + j) ((url # urls) ! j) = Panics)"
      unfolding shift using first by blast
    finally show ?thesis .
  qed
qed

lemma hasErrors_iff: "hasErrors es \<longleftrightarrow> (\<exists>e\<in>set es. e \<noteq> None)"
  by (induction es) auto

lemma taskCalls_not_complete: "c \<in> set (taskCalls d i urls) \<Longrightarrow> \<not> is_CallCompleteUpload c"
  by (induction urls arbitrary: i) (auto split: prod.splits option.splits)

lemma chunkTask_slots:
  "chunkTask up d i url = Returns (p, e) \<Longrightarrow>
     (\<exists>part. p = Some part \<and> e = None) \<or> (\<exists>err. p = None \<and> e = Some err)"
  by (auto simp: chunkTask_def Let_def split: prod.splits option.splits exec.splits sum.splits)

lemma withoutNil_all_Some:
  "\<forall>p\<in>set ps. p \<noteq> None \<Longrightarrow> map Some (withoutNil ps) = ps"
  by (induction ps rule: withoutNil.induct) auto

lemma uploadImage_rejected:
  "\<not> HasPrefix imageUrl ''http'' \<Longrightarrow>
     uploadImage M r imageUrl = (Failed ''URL must start with http:// or https://'', [])"
  by (simp add: uploadImage_def)

lemma uploadImage_complete_called:
  assumes "c \<in> set (snd (uploadImage M r imageUrl))" and "is_CallCompleteUpload c"
  shows "\<exists>imageData w h init ps es.
           HasPrefix imageUrl ''http''
         \<and> do_processImage M imageUrl = Inr (imageData, w, h)
         \<and> do_initUploadImage M imageData w h r = Inr init
         \<and> runTasks (do_uploadChunk M) imageData 0 (UploadUrls init) = Returns (ps, es)
         \<and> \<not> hasErrors es
         \<and> c = CallCompleteUpload (Key init) (UploadId init) (withoutNil ps)"
proof -
  have pre: "HasPrefix imageUrl ''http''"
    using assms by (auto simp: uploadImage_def split: if_splits)
  show ?thesis
  proof (cases "do_processImage M imageUrl")
    case (Inl err)
    then show ?thesis using assms pre by (auto simp: uploadImage_def)
  next
    case (Inr t)
    obtain imageData w h where t: "t = (imageData, w, h)" by (cases t)
    show ?thesis
    proof (cases "do_initUploadImage M imageData w h r")
      case (Inl err)
      then show ?thesis using assms pre Inr t by (auto simp: uploadImage_def)
    next
      case R: (Inr init)
      show ?thesis
      proof (cases "runTasks (do_uploadChunk M) imageData 0 (UploadUrls init)")
        case Panics
        then show ?thesis using assms pre Inr t R
          by (auto simp: uploadImage_def Let_def dest: taskCalls_not_complete)
      next
        case (Returns pe)
        obtain ps es where pe: "pe = (ps, es)" by (cases pe)
        show ?thesis
        proof (cases "hasErrors es")
          case True
          then show ?thesis using assms pre Inr t R Returns pe
            by (auto simp: uploadImage_def Let_def dest: taskCalls_not_complete)
        next
          case False
          then have "c = CallCompleteUpload (Key init) (UploadId init) (withoutNil ps)"
            using assms pre Inr t R Returns pe
            by (auto simp: uploadImage_def Let_def split: option.splits dest: taskCalls_not_complete)
          then show ?thesis using pre Inr t R Returns pe False by blast
        qed
      qed
    qed
  qed
qed

subsection \<open>No finalize on partial failure\<close>

lemma demo_task_unreachable:
  "chunkTask (do_uploadChunk (demo_methods unreachable)) ''abc'' 0 ''https://s3.example/part1''
     = Returns (None, Some (ChunkUploadFailed 1 ''connection reset''))"
  by (simp add: chunkTask_def chunkBounds_def CHUNK_SIZE_def slice_def byteRange_def demo_methods_def
      uploadChunk_def any_request_ok_def unreachable_def Let_def)

lemma demo_task_ok:
  "chunkTask (do_uploadChunk (demo_methods answers_with_etag)) ''abc'' 0 ''https://s3.example/part1''
     = Returns (Some \<lparr>ETag = ''tag'', PartNumber = 1\<rparr>, None)"
  by (simp add: chunkTask_def chunkBounds_def CHUNK_SIZE_def slice_def byteRange_def demo_methods_def
      uploadChunk_def any_request_ok_def answers_with_etag_def Let_def Get_def)

lemma demo_upload_ok:
  "uploadImage (demo_methods answers_with_etag) () ''https://example.com/a.png''
     = (Uploaded (),
        [CallProcessImage ''https://example.com/a.png'', CallInitUploadImage ''abc'' 1 1,
         CallUploadChunk ''abc'' ''https://s3.example/part1'' 1,
         CallCompleteUpload ''key-1'' ''upload-1'' [\<lparr>ETag = ''tag'', PartNumber = 1\<rparr>]])"
  using demo_task_ok
  by (simp add: uploadImage_def HasPrefix_def demo_methods_def demo_init_def Let_def
      chunkBounds_def CHUNK_SIZE_def slice_def byteRange_def)

lemma uploadImage_no_finalize:
  assumes "HasPrefix imageUrl ''http''"
    and "do_processImage M imageUrl = Inr (imageData, w, h)"
    and "do_initUploadImage M imageData w h r = Inr init"
  shows
    "((\<exists>i<length (UploadUrls init). \<exists>p e.
         chunkTask (do_uploadChunk M) imageData i (UploadUrls init ! i) = Returns (p, Some e))
       \<longrightarrow> (\<forall>c\<in>set (snd (uploadImage M r imageUrl)). \<not> is_CallCompleteUpload c)
         \<and> ((\<forall>i<length (UploadUrls init).
                chunkTask (do_uploadChunk M) imageData i (UploadUrls init ! i) \<noteq> Panics)
              \<longrightarrow> fst (uploadImage M r imageUrl) = Failed ''Failed to upload some chunks''))
     \<and> ((\<exists>c\<in>set (snd (uploadImage M r imageUrl)). is_CallCompleteUpload c)
       \<longrightarrow> (\<forall>i<length (UploadUrls init). \<exists>part.
              chunkTask (do_uploadChunk M) imageData i (UploadUrls init ! i)
                = Returns (Some part, None)))"
proof (intro conjI impI)
  assume "\<exists>c\<in>set (snd (uploadImage M r imageUrl)). is_CallCompleteUpload c"
  then obtain c where c: "c \<in> set (snd (uploadImage M r imageUrl))" "is_CallCompleteUpload c"
    by blast
  from uploadImage_complete_called[OF c] assms
  obtain ps es where run: "runTasks (do_uploadChunk M) imageData 0 (UploadUrls init) = Returns (ps, es)"
    and ok: "\<not> hasErrors es"
    by auto
  from run have len: "length es = length (UploadUrls init)"
    and each: "\<forall>j<length (UploadUrls init).
        chunkTask (do_uploadChunk M) imageData j (UploadUrls init ! j) = Returns (ps ! j, es ! j)"
    by (simp_all add: runTasks_Returns_iff)
  show "\<forall>i<length (UploadUrls init). \<exists>part.
      chunkTask (do_uploadChunk M) imageData i (UploadUrls init ! i) = Returns (Some part, None)"
  proof (intro allI impI)
    fix i assume i: "i < length (UploadUrls init)"
    then have "es ! i = None" using ok len by (auto simp: hasErrors_iff)
    moreover have t: "chunkTask (do_uploadChunk M) imageData i (UploadUrls init ! i)
        = Returns (ps ! i, es ! i)" using each i by blast
    ultimately show "\<exists>part. chunkTask (do_uploadChunk M) imageData i (UploadUrls init ! i)
        = Returns (Some part, None)"
      using chunkTask_slots[OF t] by auto
  qed
next
  assume err: "\<exists>i<length (UploadUrls init). \<exists>p e.
      chunkTask (do_uploadChunk M) imageData i (UploadUrls init ! i) = Returns (p, Some e)"
  show "\<forall>c\<in>set (snd (uploadImage M r imageUrl)). \<not> is_CallCompleteUpload c"
  proof (intro ballI notI)
    fix c assume c: "c \<in> set (snd (uploadImage M r imageUrl))" "is_CallCompleteUpload c"
    from uploadImage_complete_called[OF c] assms
    obtain ps es where run: "runTasks (do_uploadChunk M) imageData 0 (UploadUrls init) = Returns (ps, es)"
      and ok: "\<not> hasErrors es"
      by auto
    from run have len: "length es = length (UploadUrls init)"
      and each: "\<forall>j<length (UploadUrls init).
        chunkTask (do_uploadChunk M) imageData j (UploadUrls init ! j) = Returns (ps ! j, es ! j)"
      by (simp_all add: runTasks_Returns_iff)
    from err obtain i p e where i: "i < length (UploadUrls init)"
      and t: "chunkTask (do_uploadChunk M) imageData i (UploadUrls init ! i) = Returns (p, Some e)"
      by blast
    from each i t have "es ! i = Some e" by auto
    then have "hasErrors es" using i len nth_mem[of i es] by (force simp: hasErrors_iff)
    with ok show False by simp
  qed
next
  assume err: "\<exists>i<length (UploadUrls init). \<exists>p e.
      chunkTask (do_uploadChunk M) imageData i (UploadUrls init ! i) = Returns (p, Some e)"
    and nopanic: "\<forall>i<length (UploadUrls init).
      chunkTask (do_uploadChunk M) imageData i (UploadUrls init ! i) \<noteq> Panics"
  have "runTasks (do_uploadChunk M) imageData 0 (UploadUrls init) \<noteq> Panics"
    using nopanic by (simp add: runTasks_Panics_iff)
  then obtain ps es where run:
    "runTasks (do_uploadChunk M) imageData 0 (UploadUrls init) = Returns (ps, es)"
    by (cases "runTasks (do_uploadChunk M) imageData 0 (UploadUrls init)") auto
  from run have len: "length es = length (UploadUrls init)"
    and each: "\<forall>j<length (UploadUrls init).
      chunkTask (do_uploadChunk M) imageData j (UploadUrls init ! j) = Returns (ps ! j, es ! j)"
    by (simp_all add: runTasks_Returns_iff)
  from err obtain i p e where i: "i < length (UploadUrls init)"
    and t: "chunkTask (do_uploadChunk M) imageData i (UploadUrls init ! i) = Returns (p, Some e)"
    by blast
  from each i t have "es ! i = Some e" by auto
  then have "hasErrors es" using i len nth_mem[of i es] by (force simp: hasErrors_iff)
  then show "fst (uploadImage M r imageUrl) = Failed ''Failed to upload some chunks''"
    using assms run by (simp add: uploadImage_def Let_def)
qed

lemma UploadImages_single:
  "UploadImages M [imageUrl] r =
    (case uploadImage M r imageUrl of
       (Crashed, calls) \<Rightarrow> (Panics, calls)
     | (Failed reason, calls) \<Rightarrow> (Returns (Inl [(imageUrl, reason)]), calls)
     | (Uploaded file, calls) \<Rightarrow> (Returns (Inr [file]), calls))"
  by (simp add: UploadImages_def split: prod.splits outcome.splits)

lemma UploadImages_single_calls:
  "snd (UploadImages M [imageUrl] r) = snd (uploadImage M r imageUrl)"
  by (simp add: UploadImages_single split: prod.splits outcome.splits)

lemma uploadLoop_no_crash:
  assumes "\<forall>u\<in>set urls. fst (uploadImage M r u) \<noteq> Crashed"
  shows "uploadLoop M r urls uploadedFiles failedFiles calls =
    (Returns
       (if failedFiles @ concat (map (\<lambda>u. case fst (uploadImage M r u) of
                                           Failed reason \<Rightarrow> [(u, reason)] | _ \<Rightarrow> []) urls) \<noteq> []
        then Inl (failedFiles @ concat (map (\<lambda>u. case fst (uploadImage M r u) of
                                           Failed reason \<Rightarrow> [(u, reason)] | _ \<Rightarrow> []) urls))
        else Inr (uploadedFiles @ concat (map (\<lambda>u. case fst (uploadImage M r u) of
                                           Uploaded file \<Rightarrow> [file] | _ \<Rightarrow> []) urls))),
     calls @ concat (map (\<lambda>u. snd (uploadImage M r u)) urls))"
  using assms
proof (induction urls arbitrary: uploadedFiles failedFiles calls)
  case Nil
  then show ?case by simp
next
  case (Cons u urls)
  obtain out cs where res: "uploadImage M r u = (out, cs)" by (cases "uploadImage M r u")
  have rest: "\<forall>v\<in>set urls. fst (uploadImage M r v) \<noteq> Crashed" using Cons.prems by simp
  have nc: "out \<noteq> Crashed" using Cons.prems res by simp
  show ?case
  proof (cases out)
    case (Uploaded f)
    show ?thesis
      using Cons.IH[OF rest, of "uploadedFiles @ [f]" failedFiles "calls @ cs"] res Uploaded
      by simp
  next
    case (Failed reason)
    show ?thesis
      using Cons.IH[OF rest, of uploadedFiles "failedFiles @ [(u, reason)]" "calls @ cs"] res Failed
      by simp
  next
    case Crashed
    then show ?thesis using nc by simp
  qed
qed

lemma failed_entry_listed:
  assumes "u \<in> set urls" and "fst (uploadImage M r u) = Failed reason"
  shows "(u, reason) \<in> set (concat (map (\<lambda>u. case fst (uploadImage M r u) of
                                           Failed reason \<Rightarrow> [(u, reason)] | _ \<Rightarrow> []) urls))"
  using assms by (auto intro!: bexI[of _ u])

lemma uploadLoop_calls_exact:
  "snd (uploadLoop M r urls uploadedFiles failedFiles calls)
     = calls @ concat (map (\<lambda>u. snd (uploadImage M r u))
         (take (Suc (length (takeWhile (\<lambda>u. fst (uploadImage M r u) \<noteq> Crashed) urls))) urls))"
proof (induction urls arbitrary: uploadedFiles failedFiles calls)
  case Nil
  then show ?case by simp
next
  case (Cons u urls)
  obtain out cs where res: "uploadImage M r u = (out, cs)" by (cases "uploadImage M r u")
  show ?case
  proof (cases out)
    case (Uploaded f)
    show ?thesis
      using Cons.IH[of "uploadedFiles @ [f]" failedFiles "calls @ cs"] res Uploaded by simp
  next
    case (Failed reason)
    show ?thesis
      using Cons.IH[of uploadedFiles "failedFiles @ [(u, reason)]" "calls @ cs"] res Failed by simp
  next
    case Crashed
    then show ?thesis using res by simp
  qed
qed

lemma uploadLoop_crash:
  assumes "\<exists>u\<in>set urls. fst (uploadImage M r u) = Crashed"
  shows "fst (uploadLoop M r urls uploadedFiles failedFiles calls) = Panics"
  using assms
proof (induction urls arbitrary: uploadedFiles failedFiles calls)
  case Nil
  then show ?case by simp
next
  case (Cons u urls)
  obtain out cs where res: "uploadImage M r u = (out, cs)" by (cases "uploadImage M r u")
  show ?case
  proof (cases out)
    case (Uploaded f)
    then have "\<exists>v\<in>set urls. fst (uploadImage M r v) = Crashed" using Cons.prems res by auto
    from Cons.IH[OF this, of "uploadedFiles @ [f]" failedFiles "calls @ cs"]
    show ?thesis using res Uploaded by simp
  next
    case (Failed reason)
    then have "\<exists>v\<in>set urls. fst (uploadImage M r v) = Crashed" using Cons.prems res by auto
    from Cons.IH[OF this, of uploadedFiles "failedFiles @ [(u, reason)]" "calls @ cs"]
    show ?thesis using res Failed by simp
  next
    case Crashed
    then show ?thesis using res by simp
  qed
qed

text \<open>
  Claim C1. For every image of a batch handed to \<^verbatim>\<open>UploadImages\<close> that reached
  the chunk phase: if some chunk task leaves a per-part error in its slot, no
  \<^verbatim>\<open>completeUpload\<close> is among the calls made for that image, and (every task of
  the image having come back, none having panicked) the image fails with the
  reason \<^verbatim>\<open>Failed to upload some chunks\<close> and, in a batch that runs to its end, the
  aggregate error returned lists the image with that reason; whenever
  \<^verbatim>\<open>completeUpload\<close> is called for the image, every chunk task has left a part and
  no error. A batch that runs to its end returns every failed image with its
  reason, in order, or else every uploaded file, and its calls are the calls of
  its images in order; a batch cut short by a panic returns nothing and made the
  calls of the images up to the one that panicked.
\<close>

theorem no_finalize_on_partial_failure:
  assumes "imageUrl \<in> set imageUrls"
    and "HasPrefix imageUrl ''http''"
    and "do_processImage M imageUrl = Inr (imageData, w, h)"
    and "do_initUploadImage M imageData w h r = Inr init"
  shows
    "((\<exists>i<length (UploadUrls init). \<exists>p e.
         chunkTask (do_uploadChunk M) imageData i (UploadUrls init ! i) = Returns (p, Some e))
       \<longrightarrow> (\<forall>c\<in>set (snd (uploadImage M r imageUrl)). \<not> is_CallCompleteUpload c)
         \<and> ((\<forall>i<length (UploadUrls init).
                chunkTask (do_uploadChunk M) imageData i (UploadUrls init ! i) \<noteq> Panics)
              \<longrightarrow> fst (uploadImage M r imageUrl) = Failed ''Failed to upload some chunks''
                \<and> ((\<forall>u\<in>set imageUrls. fst (uploadImage M r u) \<noteq> Crashed)
                     \<longrightarrow> (\<exists>failedFiles.
                            fst (UploadImages M imageUrls r) = Returns (Inl failedFiles)
                          \<and> (imageUrl, ''Failed to upload some chunks'') \<in> set failedFiles))))
     \<and> ((\<exists>c\<in>set (snd (uploadImage M r imageUrl)). is_CallCompleteUpload c)
       \<longrightarrow> (\<forall>i<length (UploadUrls init). \<exists>part.
              chunkTask (do_uploadChunk M) imageData i (UploadUrls init ! i)
                = Returns (Some part, None)))
     \<and> ((\<forall>u\<in>set imageUrls. fst (uploadImage M r u) \<noteq> Crashed)
       \<longrightarrow> UploadImages M imageUrls r =
             (Returns
                (if concat (map (\<lambda>u. case fst (uploadImage M r u) of
                                       Failed reason \<Rightarrow> [(u, reason)] | _ \<Rightarrow> []) imageUrls) \<noteq> []
                 then Inl (concat (map (\<lambda>u. case fst (uploadImage M r u) of
                                       Failed reason \<Rightarrow> [(u, reason)] | _ \<Rightarrow> []) imageUrls))
                 else Inr (concat (map (\<lambda>u. case fst (uploadImage M r u) of
                                       Uploaded file \<Rightarrow> [file] | _ \<Rightarrow> []) imageUrls))),
              concat (map (\<lambda>u. snd (uploadImage M r u)) imageUrls)))
     \<and> snd (UploadImages M imageUrls r)
         = concat (map (\<lambda>u. snd (uploadImage M r u))
             (take (Suc (length (takeWhile (\<lambda>u. fst (uploadImage M r u) \<noteq> Crashed) imageUrls)))
                imageUrls))
     \<and> ((\<exists>u\<in>set imageUrls. fst (uploadImage M r u) = Crashed)
       \<longrightarrow> fst (UploadImages M imageUrls r) = Panics)"
proof -
  note U = uploadImage_no_finalize[OF assms(2,3,4)]
  have batch: "UploadImages M imageUrls r =
             (Returns
                (if concat (map (\<lambda>u. case fst (uploadImage M r u) of
                                       Failed reason \<Rightarrow> [(u, reason)] | _ \<Rightarrow> []) imageUrls) \<noteq> []
                 then Inl (concat (map (\<lambda>u. case fst (uploadImage M r u) of
                                       Failed reason \<Rightarrow> [(u, reason)] | _ \<Rightarrow> []) imageUrls))
                 else Inr (concat (map (\<lambda>u. case fst (uploadImage M r u) of
                                       Uploaded file \<Rightarrow> [file] | _ \<Rightarrow> []) imageUrls))),
              concat (map (\<lambda>u. snd (uploadImage M r u)) imageUrls))"
    if "\<forall>u\<in>set imageUrls. fst (uploadImage M r u) \<noteq> Crashed"
    using uploadLoop_no_crash[OF that, of "[]" "[]" "[]"] by (simp add: UploadImages_def)
  have recorded: "\<exists>failedFiles.
        fst (UploadImages M imageUrls r) = Returns (Inl failedFiles)
      \<and> (imageUrl, ''Failed to upload some chunks'') \<in> set failedFiles"
    if nc: "\<forall>u\<in>set imageUrls. fst (uploadImage M r u) \<noteq> Crashed"
      and f: "fst (uploadImage M r imageUrl) = Failed ''Failed to upload some chunks''"
  proof -
    let ?F = "concat (map (\<lambda>u. case fst (uploadImage M r u) of
                                   Failed reason \<Rightarrow> [(u, reason)] | _ \<Rightarrow> []) imageUrls)"
    have m: "(imageUrl, ''Failed to upload some chunks'') \<in> set ?F"
      by (rule failed_entry_listed[OF assms(1) f])
    have "?F \<noteq> []"
    proof
      assume "?F = []"
      with m show False by (simp only: list.set empty_iff)
    qed
    then have "fst (UploadImages M imageUrls r) = Returns (Inl ?F)"
      using batch[OF nc] by simp
    with m show ?thesis by blast
  qed
  have calls: "snd (UploadImages M imageUrls r)
         = concat (map (\<lambda>u. snd (uploadImage M r u))
             (take (Suc (length (takeWhile (\<lambda>u. fst (uploadImage M r u) \<noteq> Crashed) imageUrls)))
                imageUrls))"
    using uploadLoop_calls_exact[of M r imageUrls "[]" "[]" "[]"] by (simp add: UploadImages_def)
  have crash: "fst (UploadImages M imageUrls r) = Panics"
    if "\<exists>u\<in>set imageUrls. fst (uploadImage M r u) = Crashed"
    using uploadLoop_crash[OF that, of "[]" "[]" "[]"] by (simp add: UploadImages_def)
  show ?thesis
    using U batch recorded calls crash by blast
qed


lemma batch_first:
  "uploadImage batch_methods () first_image =
     (Failed ''Failed to upload some chunks'',
      [CallProcessImage first_image, CallInitUploadImage ''abc'' 1 1,
       CallUploadChunk ''abc'' ''https://s3.example/part1'' 1])"
  by (simp add: uploadImage_def HasPrefix_def batch_methods_def demo_methods_def demo_init_def
      first_image_def Let_def chunkTask_def chunkBounds_def CHUNK_SIZE_def slice_def byteRange_def
      uploadChunk_def any_request_ok_def reachable_unless_abc_def)

lemma batch_second:
  "uploadImage batch_methods () ''https://example.com/b.png'' =
     (Uploaded (),
      [CallProcessImage ''https://example.com/b.png'', CallInitUploadImage ''xyz'' 2 2,
       CallUploadChunk ''xyz'' ''https://s3.example/part1'' 1,
       CallCompleteUpload ''key-1'' ''upload-1'' [\<lparr>ETag = ''tag'', PartNumber = 1\<rparr>]])"
  by (simp add: uploadImage_def HasPrefix_def batch_methods_def demo_methods_def demo_init_def
      first_image_def Let_def chunkTask_def chunkBounds_def CHUNK_SIZE_def slice_def byteRange_def
      uploadChunk_def any_request_ok_def reachable_unless_abc_def answers_with_etag_def Get_def)

lemma batch_third:
  "uploadImage batch_methods () ''ftp://example.com/c.png'' =
     (Failed ''URL must start with http:// or https://'', [])"
  by (rule uploadImage_rejected) (simp add: HasPrefix_def)

theorem no_finalize_on_partial_failure_witness:
  "chunkTask (do_uploadChunk batch_methods) ''abc'' 0 ''https://s3.example/part1''
     = Returns (None, Some (ChunkUploadFailed 1 ''connection reset''))
   \<and> filter is_CallCompleteUpload (snd (uploadImage batch_methods () first_image)) = []
   \<and> UploadImages batch_methods
        [first_image, ''https://example.com/b.png'', ''ftp://example.com/c.png''] ()
     = (Returns (Inl [(first_image, ''Failed to upload some chunks''),
                      (''ftp://example.com/c.png'', ''URL must start with http:// or https://'')]),
        [CallProcessImage first_image, CallInitUploadImage ''abc'' 1 1,
         CallUploadChunk ''abc'' ''https://s3.example/part1'' 1,
         CallProcessImage ''https://example.com/b.png'', CallInitUploadImage ''xyz'' 2 2,
         CallUploadChunk ''xyz'' ''https://s3.example/part1'' 1,
         CallCompleteUpload ''key-1'' ''upload-1'' [\<lparr>ETag = ''tag'', PartNumber = 1\<rparr>]])
   \<and> chunkTask (do_uploadChunk batch_methods) ''xyz'' 0 ''https://s3.example/part1''
     = Returns (Some \<lparr>ETag = ''tag'', PartNumber = 1\<rparr>, None)"
proof -
  let ?batch = "[first_image, ''https://example.com/b.png'', ''ftp://example.com/c.png'']"
  have mem1: "first_image \<in> set ?batch" and mem2: "''https://example.com/b.png'' \<in> set ?batch"
    by simp_all
  have pre1: "HasPrefix first_image ''http''"
    and pre2: "HasPrefix ''https://example.com/b.png'' ''http''"
    by (simp_all add: HasPrefix_def first_image_def)
  have p1: "do_processImage batch_methods first_image = Inr (''abc'', 1, 1)"
    and p2: "do_processImage batch_methods ''https://example.com/b.png'' = Inr (''xyz'', 2, 2)"
    and i1: "do_initUploadImage batch_methods ''abc'' 1 1 () = Inr demo_init"
    and i2: "do_initUploadImage batch_methods ''xyz'' 2 2 () = Inr demo_init"
    by (simp_all add: batch_methods_def demo_methods_def first_image_def)
  have urls: "UploadUrls demo_init = [''https://s3.example/part1'']"
    by (simp add: demo_init_def)
  have t1: "chunkTask (do_uploadChunk batch_methods) ''abc'' 0 ''https://s3.example/part1''
     = Returns (None, Some (ChunkUploadFailed 1 ''connection reset''))"
    by (simp add: batch_methods_def demo_methods_def chunkTask_def chunkBounds_def CHUNK_SIZE_def
        slice_def byteRange_def uploadChunk_def any_request_ok_def reachable_unless_abc_def Let_def)
  have t2: "chunkTask (do_uploadChunk batch_methods) ''xyz'' 0 ''https://s3.example/part1''
     = Returns (Some \<lparr>ETag = ''tag'', PartNumber = 1\<rparr>, None)"
    by (simp add: batch_methods_def demo_methods_def chunkTask_def chunkBounds_def CHUNK_SIZE_def
        slice_def byteRange_def uploadChunk_def any_request_ok_def reachable_unless_abc_def
        answers_with_etag_def Get_def Let_def)
  have failing: "\<exists>i<length (UploadUrls demo_init). \<exists>p e.
       chunkTask (do_uploadChunk batch_methods) ''abc'' i (UploadUrls demo_init ! i)
         = Returns (p, Some e)"
    using t1 by (simp add: urls)
  have nocrash: "\<forall>u\<in>set ?batch. fst (uploadImage batch_methods () u) \<noteq> Crashed"
    by (simp add: batch_first batch_second batch_third)
  note T1 = no_finalize_on_partial_failure[OF mem1 pre1 p1 i1]
  from T1 failing
  have a: "\<forall>c\<in>set (snd (uploadImage batch_methods () first_image)). \<not> is_CallCompleteUpload c"
    by blast
  then have a': "filter is_CallCompleteUpload (snd (uploadImage batch_methods () first_image)) = []"
    by (simp add: filter_empty_conv)
  from T1 nocrash
  have b: "UploadImages batch_methods ?batch () =
             (Returns
                (if concat (map (\<lambda>u. case fst (uploadImage batch_methods () u) of
                                       Failed reason \<Rightarrow> [(u, reason)] | _ \<Rightarrow> []) ?batch) \<noteq> []
                 then Inl (concat (map (\<lambda>u. case fst (uploadImage batch_methods () u) of
                                       Failed reason \<Rightarrow> [(u, reason)] | _ \<Rightarrow> []) ?batch))
                 else Inr (concat (map (\<lambda>u. case fst (uploadImage batch_methods () u) of
                                       Uploaded file \<Rightarrow> [file] | _ \<Rightarrow> []) ?batch))),
              concat (map (\<lambda>u. snd (uploadImage batch_methods () u)) ?batch))"
    by blast
  have b': "UploadImages batch_methods ?batch ()
     = (Returns (Inl [(first_image, ''Failed to upload some chunks''),
                      (''ftp://example.com/c.png'', ''URL must start with http:// or https://'')]),
        [CallProcessImage first_image, CallInitUploadImage ''abc'' 1 1,
         CallUploadChunk ''abc'' ''https://s3.example/part1'' 1,
         CallProcessImage ''https://example.com/b.png'', CallInitUploadImage ''xyz'' 2 2,
         CallUploadChunk ''xyz'' ''https://s3.example/part1'' 1,
         CallCompleteUpload ''key-1'' ''upload-1'' [\<lparr>ETag = ''tag'', PartNumber = 1\<rparr>]])"
    unfolding b by (simp add: batch_first batch_second batch_third)
  show ?thesis using t1 a' b' t2 by (intro conjI)
qed

subsection \<open>Chunk boundaries\<close>

lemma CHUNK_SIZE_pos: "0 < CHUNK_SIZE"
  by (simp add: CHUNK_SIZE_def)

lemma chunk_slice:
  "slice d (i * CHUNK_SIZE) (if i * CHUNK_SIZE + CHUNK_SIZE > length d then length d
                             else i * CHUNK_SIZE + CHUNK_SIZE)
     = (if i * CHUNK_SIZE \<le> length d
        then Some (byteRange d (i * CHUNK_SIZE) (min ((i + 1) * CHUNK_SIZE) (length d)))
        else None)"
  by (auto simp: slice_def min_def add.commute)

lemma chunkTask_in_range:
  assumes "i * CHUNK_SIZE \<le> length d"
  shows "chunkTask up d i url =
    (case up (byteRange d (i * CHUNK_SIZE) (min ((i + 1) * CHUNK_SIZE) (length d))) url (i + 1) of
       Panics \<Rightarrow> Panics
     | Returns (Inl err) \<Rightarrow> Returns (None, Some err)
     | Returns (Inr part) \<Rightarrow> Returns (Some part, None))"
  using assms by (simp add: chunkTask_def chunkBounds_def Let_def chunk_slice)

lemma chunkTask_out_of_range:
  assumes "length d < i * CHUNK_SIZE"
  shows "chunkTask up d i url = Panics"
  using assms by (simp add: chunkTask_def chunkBounds_def Let_def slice_def)

lemma chunkTask_Panics_iff:
  assumes "\<And>chunk u p. up chunk u p \<noteq> Panics"
  shows "chunkTask up d i url = Panics \<longleftrightarrow> length d < i * CHUNK_SIZE"
proof (cases "i * CHUNK_SIZE \<le> length d")
  case True
  then show ?thesis
    using assms[of "byteRange d (i * CHUNK_SIZE) (min ((i + 1) * CHUNK_SIZE) (length d))" url "i + 1"]
    by (auto simp: chunkTask_in_range split: exec.splits sum.splits)
next
  case False
  then show ?thesis by (simp add: chunkTask_out_of_range)
qed



lemma ceil_div_bounds:
  fixes L c :: nat
  assumes "0 < L" "0 < c"
  shows "((L + c - 1) div c - 1) * c < L" and "L \<le> ((L + c - 1) div c) * c"
    and "0 < (L + c - 1) div c"
proof -
  let ?n = "(L + c - 1) div c"
  have pos: "0 < ?n" using assms by (simp add: div_greater_zero_iff)
  show "0 < ?n" by (rule pos)
  have dm: "?n * c + (L + c - 1) mod c = L + c - 1" by simp
  have m: "(L + c - 1) mod c < c" using assms by simp
  from dm m have "L + c - 1 < ?n * c + c" by linarith
  then show "L \<le> ?n * c" using assms by linarith
  from dm have "?n * c \<le> L + c - 1" by linarith
  moreover have "?n * c = (?n - 1) * c + c" using pos by (cases ?n) auto
  ultimately show "(?n - 1) * c < L" using assms by linarith
qed


lemma byteRange_replicate:
  "byteRange (replicate n x) lo hi = replicate (min (hi - lo) (n - lo)) x"
  by (simp add: byteRange_def)




lemma within_ceiling_in_range:
  assumes "length urls \<le> (length d + CHUNK_SIZE - 1) div CHUNK_SIZE" and "i < length urls"
  shows "i * CHUNK_SIZE \<le> length d"
proof (cases "length d = 0")
  case True
  then have "(length d + CHUNK_SIZE - 1) div CHUNK_SIZE = 0"
    using CHUNK_SIZE_pos by simp
  then show ?thesis using assms by simp
next
  case False
  then have L: "0 < length d" by simp
  have "i \<le> (length d + CHUNK_SIZE - 1) div CHUNK_SIZE - 1" using assms by linarith
  then have "i * CHUNK_SIZE \<le> ((length d + CHUNK_SIZE - 1) div CHUNK_SIZE - 1) * CHUNK_SIZE"
    by (rule mult_le_mono1)
  with ceil_div_bounds(1)[OF L CHUNK_SIZE_pos] show ?thesis by linarith
qed

text \<open>
  Claim C10, as amended. The task for index \<open>i\<close> panics in the slice expression
  whenever \<open>i * CHUNK_SIZE\<close> exceeds the length of the buffer, leaving neither a
  part nor an error in its slots; with an \<^verbatim>\<open>uploadChunk\<close> that does not panic
  itself, the chunk phase panics exactly when some destination has such an
  index; and at most \<open>\<lceil>L / CHUNK_SIZE\<rceil>\<close> destinations are enough, though not
  needed, for every slice to be in range.
\<close>

theorem chunk_slice_panics:
  "(length imageData < i * CHUNK_SIZE \<longrightarrow> chunkTask up imageData i url = Panics)
   \<and> ((\<forall>chunk u p. up chunk u p \<noteq> Panics) \<longrightarrow>
        (runTasks up imageData 0 urls = Panics
           \<longleftrightarrow> (\<exists>i<length urls. length imageData < i * CHUNK_SIZE)))
   \<and> (length urls \<le> (length imageData + CHUNK_SIZE - 1) div CHUNK_SIZE \<longrightarrow>
        (\<forall>i<length urls. i * CHUNK_SIZE \<le> length imageData))"
proof (intro conjI impI)
  assume "length imageData < i * CHUNK_SIZE"
  then show "chunkTask up imageData i url = Panics" by (rule chunkTask_out_of_range)
next
  assume np: "\<forall>chunk u p. up chunk u p \<noteq> Panics"
  have "chunkTask up imageData j u = Panics \<longleftrightarrow> length imageData < j * CHUNK_SIZE" for j u
    using np by (intro chunkTask_Panics_iff) blast
  then show "runTasks up imageData 0 urls = Panics
      \<longleftrightarrow> (\<exists>i<length urls. length imageData < i * CHUNK_SIZE)"
    by (simp add: runTasks_Panics_iff)
next
  assume "length urls \<le> (length imageData + CHUNK_SIZE - 1) div CHUNK_SIZE"
  then show "\<forall>i<length urls. i * CHUNK_SIZE \<le> length imageData"
    using within_ceiling_in_range by blast
qed

lemma demo_no_panic: "do_uploadChunk (demo_methods httpDo) chunk u p \<noteq> Panics"
  by (simp add: demo_methods_def)

theorem chunk_slice_panics_witness:
  "length ''abc'' < 1 * CHUNK_SIZE
   \<and> chunkTask (do_uploadChunk (demo_methods answers_with_etag)) ''abc'' 1 ''u2'' = Panics
   \<and> runTasks (do_uploadChunk (demo_methods answers_with_etag)) ''abc'' 0 [''u1'', ''u2'']
       = Panics
   \<and> length [''u1''] \<le> (length ''abc'' + CHUNK_SIZE - 1) div CHUNK_SIZE
   \<and> 0 * CHUNK_SIZE \<le> length ''abc''"
proof -
  have h1: "length ''abc'' < 1 * CHUNK_SIZE" by (simp add: CHUNK_SIZE_def)
  have h2: "\<forall>chunk u p. do_uploadChunk (demo_methods answers_with_etag) chunk u p \<noteq> Panics"
    by (simp add: demo_no_panic)
  have h3: "\<exists>i<length [''u1'', ''u2'']. length ''abc'' < i * CHUNK_SIZE"
    by (rule exI[of _ 1]) (simp add: CHUNK_SIZE_def)
  have h4: "length [''u1''] \<le> (length ''abc'' + CHUNK_SIZE - 1) div CHUNK_SIZE"
    by (simp add: CHUNK_SIZE_def)
  from chunk_slice_panics[of "''abc''" 1 "do_uploadChunk (demo_methods answers_with_etag)" "''u2''"
      "[''u1'', ''u2'']"] h1 h2 h3
  have a: "chunkTask (do_uploadChunk (demo_methods answers_with_etag)) ''abc'' 1 ''u2'' = Panics"
    and b: "runTasks (do_uploadChunk (demo_methods answers_with_etag)) ''abc'' 0 [''u1'', ''u2'']
       = Panics"
    by blast+
  from chunk_slice_panics[of "''abc''" 0 "do_uploadChunk (demo_methods answers_with_etag)" "''u1''"
      "[''u1'']"] h4
  have c: "0 * CHUNK_SIZE \<le> length ''abc''" by simp
  show ?thesis using h1 a b h4 c by (intro conjI)
qed

text \<open>
  The bound on the destinations is not necessary: a buffer of exactly
  \<open>CHUNK_SIZE\<close> bytes with two destinations, one more than the ceiling, runs
  both tasks without a panic; the second uploads an empty chunk.
\<close>

theorem chunk_slice_total_counterexample:
  "\<not> length [''u1'', ''u2''] \<le> (length buffer_10MiB + CHUNK_SIZE - 1) div CHUNK_SIZE
   \<and> runTasks (do_uploadChunk (demo_methods answers_with_etag)) buffer_10MiB 0 [''u1'', ''u2'']
       = Returns ([Some \<lparr>ETag = ''tag'', PartNumber = 1\<rparr>, Some \<lparr>ETag = ''tag'', PartNumber = 2\<rparr>],
                  [None, None])"
  by (simp add: buffer_10MiB_def CHUNK_SIZE_def chunkTask_def chunkBounds_def slice_def
      byteRange_replicate Let_def demo_methods_def uploadChunk_def any_request_ok_def
      answers_with_etag_def Get_def)

section \<open>Properties of the transport\<close>

lemma newRequest_ok:
  "newRequestError E method url = None \<Longrightarrow> \<exists>req0. newRequest E method url body = Inr req0"
  by (simp add: newRequest_def Let_def)

lemma attempts_all_503:
  assumes all503: "\<forall>n r. \<exists>resp. outcome (roundTrip E n r) = Inr resp \<and> Status resp = 503"
    and newOK: "newRequestError E method url = None"
    and hdrOK: "\<forall>req e. applyHeaders c req headers \<noteq> Inl e"
    and "0 \<le> a" and "a \<le> maxRetries c"
  shows "\<exists>resp reqs.
           attempts E c method url headers body a lastErr sent = ((Some resp, None), sent @ reqs)
         \<and> length reqs = nat (maxRetries c - a) + 1
         \<and> outcome (roundTrip E (nat (maxRetries c)) (last reqs)) = Inr resp
         \<and> Status resp = 503"
  using assms(4,5)
proof (induction "nat (maxRetries c - a)" arbitrary: a body lastErr sent)
  case 0
  then have a: "a = maxRetries c" by simp
  obtain req0 where r0: "newRequest E method url body = Inr req0"
    using newRequest_ok[OF newOK] by blast
  obtain req where r: "applyHeaders c req0 headers = Inr req"
    using hdrOK by (cases "applyHeaders c req0 headers") auto
  obtain resp where resp: "outcome (roundTrip E (nat a) req) = Inr resp" "Status resp = 503"
    using all503 by blast
  show ?case
    apply (subst attempts.simps)
    using a r0 r resp by (simp add: Let_def)
next
  case (Suc k)
  then have lt: "a < maxRetries c" by linarith
  obtain req0 where r0: "newRequest E method url body = Inr req0"
    using newRequest_ok[OF newOK] by blast
  obtain req where r: "applyHeaders c req0 headers = Inr req"
    using hdrOK by (cases "applyHeaders c req0 headers") auto
  obtain resp where resp: "outcome (roundTrip E (nat a) req) = Inr resp" "Status resp = 503"
    using all503 by blast
  let ?body' = "map_option (drop (consumed (roundTrip E (nat a) req))) body"
  have k: "k = nat (maxRetries c - (a + 1))" using Suc.hyps(2) by linarith
  from Suc.hyps(1)[OF k, of ?body' lastErr "sent @ [req]"] Suc.prems lt
  obtain resp' reqs where IH:
    "attempts E c method url headers ?body' (a + 1) lastErr (sent @ [req])
       = ((Some resp', None), (sent @ [req]) @ reqs)"
    "length reqs = nat (maxRetries c - (a + 1)) + 1"
    "outcome (roundTrip E (nat (maxRetries c)) (last reqs)) = Inr resp'"
    "Status resp' = 503"
    by auto
  have step: "attempts E c method url headers body a lastErr sent
      = attempts E c method url headers ?body' (a + 1) lastErr (sent @ [req])"
    apply (subst attempts.simps)
    using lt r0 r resp by (simp add: Let_def shouldRetry_def)
  have ne: "reqs \<noteq> []" using IH(2) by auto
  show ?case
    apply (rule exI[of _ resp'], rule exI[of _ "req # reqs"])
    using step IH ne lt by simp
qed

lemma doRequest_all_503:
  assumes "0 \<le> maxRetries c"
    and "\<forall>n r. \<exists>resp. outcome (roundTrip E n r) = Inr resp \<and> Status resp = 503"
    and "newRequestError E method (baseURL c @ endpoint) = None"
    and "\<forall>p. payload = Some p \<longrightarrow> (\<exists>jsonData. json_Marshal E p = Inr jsonData)"
    and "\<forall>req e. applyHeaders c req headers \<noteq> Inl e"
  shows "\<exists>resp reqs.
           doRequest E c method endpoint payload headers = ((Some resp, None), reqs)
         \<and> length reqs = nat (maxRetries c) + 1
         \<and> outcome (roundTrip E (nat (maxRetries c)) (last reqs)) = Inr resp
         \<and> Status resp = 503"
proof (cases payload)
  case None
  from attempts_all_503[where a = 0 and body = None and lastErr = None and sent = "[]",
      OF assms(2,3,5) _ assms(1)]
  show ?thesis using None by (simp add: doRequest_def)
next
  case (Some p)
  then obtain jsonData where j: "json_Marshal E p = Inr jsonData" using assms(4) by blast
  from attempts_all_503[where a = 0 and body = "Some jsonData" and lastErr = None and sent = "[]",
      OF assms(2,3,5) _ assms(1)]
  show ?thesis using Some j by (simp add: doRequest_def)
qed

lemma parse_error_status:
  assumes "RespBody resp = Inr body" and "400 \<le> Status resp"
  shows "parseJSONResponse ua ut resp =
    Inl (APIErr \<lparr>StatusCode = Status resp,
                  Message = (case ua body of
                               Some apiErr \<Rightarrow> if Message apiErr \<noteq> [] then Message apiErr else body
                             | None \<Rightarrow> body)\<rparr>)"
  using assms by (auto simp: parseJSONResponse_def split: option.splits)

lemma maxRetries_New:
  "maxRetries (New config) = (if MaxRetries config = 0 then 3 else MaxRetries config)"
  by (simp add: New_def Let_def)

lemma applyHeaders_New: "applyHeaders (New config) req headers \<noteq> Inl e"
  by (simp add: applyHeaders_def New_def Let_def)

text \<open>
  Claim C2, as amended. \<^verbatim>\<open>New\<close> keeps a configured \<^verbatim>\<open>MaxRetries\<close> except 0, which
  becomes 3. For a client whose \<^verbatim>\<open>maxRetries\<close> is not negative and a request that
  can be built, an endpoint that answers 503 to every attempt is tried exactly
  \<^verbatim>\<open>maxRetries + 1\<close> times; \<^verbatim>\<open>doRequest\<close> then returns the last 503 response with
  no error, and the typed call \<^verbatim>\<open>As\<close> turns it, once its body is read, into an
  \<^verbatim>\<open>APIError\<close> with status code 503.
\<close>

theorem retry_bound_on_503:
  assumes "0 \<le> maxRetries c"
    and "\<forall>n r. \<exists>resp. outcome (roundTrip E n r) = Inr resp \<and> Status resp = 503"
    and "newRequestError E method (baseURL c @ endpoint) = None"
    and "\<forall>p. payload = Some p \<longrightarrow> (\<exists>jsonData. json_Marshal E p = Inr jsonData)"
    and "\<forall>req e. applyHeaders c req headers \<noteq> Inl e"
  shows
    "maxRetries (New config) = (if MaxRetries config = 0 then 3 else MaxRetries config)
     \<and> length (snd (doRequest E c method endpoint payload headers)) = nat (maxRetries c) + 1
     \<and> (\<exists>resp. fst (doRequest E c method endpoint payload headers) = (Some resp, None)
           \<and> Status resp = 503
           \<and> outcome (roundTrip E (nat (maxRetries c))
                        (last (snd (doRequest E c method endpoint payload headers)))) = Inr resp
           \<and> (\<forall>body. RespBody resp = Inr body \<longrightarrow>
                 As E unmarshalAPIError unmarshalTarget c method endpoint payload headers
                   = Returns (Inl (APIErr \<lparr>StatusCode = 503,
                        Message = (case unmarshalAPIError body of
                                     Some apiErr \<Rightarrow>
                                       if Message apiErr \<noteq> [] then Message apiErr else body
                                   | None \<Rightarrow> body)\<rparr>))))"
proof -
  from doRequest_all_503[OF assms] obtain resp reqs where
    d: "doRequest E c method endpoint payload headers = ((Some resp, None), reqs)"
    and l: "length reqs = nat (maxRetries c) + 1"
    and o: "outcome (roundTrip E (nat (maxRetries c)) (last reqs)) = Inr resp"
    and s: "Status resp = 503"
    by blast
  have decode: "As E unmarshalAPIError unmarshalTarget c method endpoint payload headers
      = Returns (Inl (APIErr \<lparr>StatusCode = 503,
                        Message = (case unmarshalAPIError body of
                                     Some apiErr \<Rightarrow>
                                       if Message apiErr \<noteq> [] then Message apiErr else body
                                   | None \<Rightarrow> body)\<rparr>))"
    if "RespBody resp = Inr body" for body
    using parse_error_status[OF that, of unmarshalAPIError unmarshalTarget] d s
    by (simp add: As_def)
  show ?thesis using d l o s decode by (simp add: maxRetries_New)
qed

lemma always_503_answers:
  "\<forall>n r. \<exists>resp. outcome (roundTrip always_503 n r) = Inr resp \<and> Status resp = 503"
  by (simp add: always_503_def respond_def)

lemma demo_request_ok: "newRequestError always_503 method url = None"
  by (simp add: always_503_def any_request_ok_def)

theorem retry_bound_on_503_witness:
  "0 \<le> maxRetries (New demo_config)
   \<and> length (snd (doRequest always_503 (New demo_config) ''GET'' ''/api/status'' None Map.empty))
       = 4
   \<and> As always_503 decode_error_body decode_unit (New demo_config) ''GET'' ''/api/status'' None
        Map.empty
       = Returns (Inl (APIErr \<lparr>StatusCode = 503, Message = ''Service Unavailable''\<rparr>))"
proof -
  have m: "maxRetries (New demo_config) = 3"
    by (simp add: maxRetries_New demo_config_def)
  have h1: "0 \<le> maxRetries (New demo_config)" by (simp add: m)
  have h4: "\<forall>p. (None :: string option) = Some p
      \<longrightarrow> (\<exists>jsonData. json_Marshal always_503 p = Inr jsonData)" by simp
  have h5: "\<forall>req e. applyHeaders (New demo_config) req Map.empty \<noteq> Inl e"
    by (simp add: applyHeaders_New)
  note T = retry_bound_on_503[OF h1 always_503_answers demo_request_ok h4 h5,
      where unmarshalAPIError = decode_error_body and unmarshalTarget = decode_unit]
  from T obtain resp where
    o: "outcome (roundTrip always_503 (nat (maxRetries (New demo_config)))
          (last (snd (doRequest always_503 (New demo_config) ''GET'' ''/api/status'' None
             Map.empty)))) = Inr resp"
    and a: "\<forall>body. RespBody resp = Inr body \<longrightarrow>
       As always_503 decode_error_body decode_unit (New demo_config) ''GET'' ''/api/status'' None
         Map.empty
       = Returns (Inl (APIErr \<lparr>StatusCode = 503,
            Message = (case decode_error_body body of
                         Some apiErr \<Rightarrow> if Message apiErr \<noteq> [] then Message apiErr else body
                       | None \<Rightarrow> body)\<rparr>))"
    by blast
  from o have "RespBody resp = Inr ''Service Unavailable''"
    by (auto simp: always_503_def respond_def)
  with a have "As always_503 decode_error_body decode_unit (New demo_config) ''GET''
      ''/api/status'' None Map.empty
       = Returns (Inl (APIErr \<lparr>StatusCode = 503, Message = ''Service Unavailable''\<rparr>))"
    by (simp add: decode_error_body_def body_with_message_def body_without_message_def)
  moreover from T have "length (snd (doRequest always_503 (New demo_config) ''GET''
      ''/api/status'' None Map.empty)) = 4"
    by (simp add: m)
  ultimately show ?thesis using h1 by simp
qed

text \<open>
  The claim as stated fails on the configured value: with \<^verbatim>\<open>MaxRetries\<close> configured
  as 0 the endpoint is tried four times, not once. With a negative value the loop
  body never runs: no attempt is made, \<^verbatim>\<open>doRequest\<close> returns neither a response
  nor an error, and the typed call panics on the nil response.
\<close>

theorem retry_bound_counterexample:
  "MaxRetries demo_config = 0
   \<and> length (snd (doRequest always_503 (New demo_config) ''GET'' ''/api/status'' None Map.empty))
       = 4
   \<and> doRequest always_503 (New (demo_config\<lparr>MaxRetries := - 2\<rparr>)) ''GET'' ''/api/status'' None
        Map.empty = ((None, None), [])
   \<and> As always_503 decode_error_body decode_unit (New (demo_config\<lparr>MaxRetries := - 2\<rparr>)) ''GET''
        ''/api/status'' None Map.empty = Panics"
proof -
  have m: "maxRetries (New demo_config) = 3"
    by (simp add: maxRetries_New demo_config_def)
  have h1: "0 \<le> maxRetries (New demo_config)" by (simp add: m)
  have h4: "\<forall>p. (None :: string option) = Some p
      \<longrightarrow> (\<exists>jsonData. json_Marshal always_503 p = Inr jsonData)" by simp
  have h5: "\<forall>req e. applyHeaders (New demo_config) req Map.empty \<noteq> Inl e"
    by (simp add: applyHeaders_New)
  from doRequest_all_503[of "New demo_config" always_503 "''GET''" "''/api/status''" None
      Map.empty, OF h1 always_503_answers demo_request_ok h4 h5]
  obtain resp reqs where
    "doRequest always_503 (New demo_config) ''GET'' ''/api/status'' None Map.empty
       = ((Some resp, None), reqs)"
    and "length reqs = nat (maxRetries (New demo_config)) + 1"
    by blast
  then have four: "length (snd (doRequest always_503 (New demo_config) ''GET'' ''/api/status''
      None Map.empty)) = 4"
    by (simp add: m)
  have neg: "doRequest always_503 (New (demo_config\<lparr>MaxRetries := - 2\<rparr>)) ''GET''
      ''/api/status'' None Map.empty = ((None, None), [])"
    by (simp add: doRequest_def attempts.simps maxRetries_New)
  show ?thesis using four neg by (simp add: demo_config_def As_def)
qed

text \<open>
  A retry after a failure that left the body unread sends the body again.
\<close>

lemma retry_after_unread_body:
  "map ReqBody (snd (doRequest refused_once (New demo_config) ''POST'' ''/api/upload/complete''
      (Some ''[1,2,3]'') Map.empty)) = [''[1,2,3]'', ''[1,2,3]'']"
  apply (simp add: doRequest_def refused_once_def New_def demo_config_def Let_def)
  apply (subst attempts.simps)
  apply (simp add: newRequest_def any_request_ok_def applyHeaders_def respond_def shouldRetry_def
      Let_def)
  apply (subst attempts.simps)
  apply (simp add: newRequest_def any_request_ok_def applyHeaders_def respond_def shouldRetry_def
      Let_def)
  done

lemma busy_once_requests:
  "doRequest busy_once (New demo_config) ''POST'' ''/api/upload/complete'' (Some ''[1,2,3]'')
     Map.empty =
   ((Some \<lparr>Status = 200, RespHeader = Map.empty, RespBody = Inr ''{}''\<rparr>, None),
    [\<lparr>Method = ''POST'', URL = ''https://api.example/api/upload/complete'',
      ReqHeader = standardHeaders, ReqBody = ''[1,2,3]'', ContentLength = 7\<rparr>,
     \<lparr>Method = ''POST'', URL = ''https://api.example/api/upload/complete'',
      ReqHeader = standardHeaders, ReqBody = [], ContentLength = 0\<rparr>])"
  apply (simp add: doRequest_def busy_once_def New_def demo_config_def Let_def)
  apply (subst attempts.simps)
  apply (simp add: newRequest_def any_request_ok_def applyHeaders_def respond_def shouldRetry_def
      Let_def)
  apply (subst attempts.simps)
  apply (simp add: newRequest_def any_request_ok_def applyHeaders_def respond_def shouldRetry_def
      Let_def)
  done

text \<open>
  Claim C3 fails on the code. The body of every attempt is read from the one
  buffer made before the loop, and an attempt drains what it sends. Here the
  first attempt of a POST gets 503 after its seven bytes of JSON were read; the
  retry goes to the same method and URL with an empty body and content length 0,
  and it is the answer to that empty request that the caller receives.
\<close>

theorem retry_resends_consumed_body:
  "map ReqBody (snd (doRequest busy_once (New demo_config) ''POST'' ''/api/upload/complete''
      (Some ''[1,2,3]'') Map.empty)) = [''[1,2,3]'', []]
   \<and> map ContentLength (snd (doRequest busy_once (New demo_config) ''POST''
      ''/api/upload/complete'' (Some ''[1,2,3]'') Map.empty)) = [7, 0]
   \<and> map Method (snd (doRequest busy_once (New demo_config) ''POST'' ''/api/upload/complete''
      (Some ''[1,2,3]'') Map.empty)) = [''POST'', ''POST'']
   \<and> map URL (snd (doRequest busy_once (New demo_config) ''POST'' ''/api/upload/complete''
      (Some ''[1,2,3]'') Map.empty))
       = [''https://api.example/api/upload/complete'', ''https://api.example/api/upload/complete'']
   \<and> Status (the (fst (fst (doRequest busy_once (New demo_config) ''POST''
      ''/api/upload/complete'' (Some ''[1,2,3]'') Map.empty)))) = 200"
  by (simp add: busy_once_requests)

text \<open>
  Claim C4, as amended. For a response whose body is read completely: with a
  status of 400 or more the result is an \<^verbatim>\<open>APIError\<close> carrying the status of the
  response, its message being the message of the decoded error body when that
  body decodes with a non-empty message, and the raw body text otherwise; with a
  status below 400 a body that does not decode into the target gives a decode
  error that is not an \<^verbatim>\<open>APIError\<close>, and a body that decodes gives the value. A
  response whose body cannot be read gives a read error that is not an
  \<^verbatim>\<open>APIError\<close>, whatever its status.
\<close>

theorem decode_classifies_by_status:
  "(\<forall>body. RespBody resp = Inr body \<longrightarrow>
      (400 \<le> Status resp \<longrightarrow>
         parseJSONResponse unmarshalAPIError unmarshalTarget resp =
           Inl (APIErr \<lparr>StatusCode = Status resp,
                  Message = (case unmarshalAPIError body of
                               Some apiErr \<Rightarrow>
                                 if Message apiErr \<noteq> [] then Message apiErr else body
                             | None \<Rightarrow> body)\<rparr>))
    \<and> (Status resp < 400 \<longrightarrow>
         (\<forall>e. unmarshalTarget body = Inl e \<longrightarrow>
            parseJSONResponse unmarshalAPIError unmarshalTarget resp = Inl (UnmarshalFailed e)
            \<and> \<not> is_APIError (UnmarshalFailed e))
       \<and> (\<forall>v. unmarshalTarget body = Inr v \<longrightarrow>
            parseJSONResponse unmarshalAPIError unmarshalTarget resp = Inr v)))
   \<and> (\<forall>e. RespBody resp = Inl e \<longrightarrow>
         parseJSONResponse unmarshalAPIError unmarshalTarget resp = Inl (ReadBodyFailed e)
         \<and> \<not> is_APIError (ReadBodyFailed e))"
  by (auto simp: parse_error_status) (auto simp: parseJSONResponse_def)

theorem decode_classifies_by_status_witness:
  "parseJSONResponse decode_error_body decode_unit
     \<lparr>Status = 429, RespHeader = Map.empty, RespBody = Inr body_with_message\<rparr>
     = Inl (APIErr \<lparr>StatusCode = 429, Message = ''quota exceeded''\<rparr>)
   \<and> parseJSONResponse decode_error_body decode_unit
     \<lparr>Status = 429, RespHeader = Map.empty, RespBody = Inr body_without_message\<rparr>
     = Inl (APIErr \<lparr>StatusCode = 429, Message = body_without_message\<rparr>)
   \<and> parseJSONResponse decode_error_body decode_unit
     \<lparr>Status = 502, RespHeader = Map.empty, RespBody = Inr ''Bad Gateway''\<rparr>
     = Inl (APIErr \<lparr>StatusCode = 502, Message = ''Bad Gateway''\<rparr>)
   \<and> parseJSONResponse decode_error_body decode_unit
     \<lparr>Status = 200, RespHeader = Map.empty, RespBody = Inr ''{''\<rparr>
     = Inl (UnmarshalFailed ''unexpected end of JSON input'')
   \<and> parseJSONResponse decode_error_body decode_unit
     \<lparr>Status = 200, RespHeader = Map.empty, RespBody = Inr ''{}''\<rparr> = Inr ()
   \<and> parseJSONResponse decode_error_body decode_unit
     \<lparr>Status = 200, RespHeader = Map.empty, RespBody = Inl ''unexpected EOF''\<rparr>
     = Inl (ReadBodyFailed ''unexpected EOF'')"
proof -
  have ne: "body_with_message \<noteq> body_without_message"
    "''Bad Gateway'' \<noteq> body_with_message" "''Bad Gateway'' \<noteq> body_without_message"
    by (simp_all add: body_with_message_def body_without_message_def)
  note T = decode_classifies_by_status[where unmarshalAPIError = decode_error_body
      and unmarshalTarget = decode_unit]
  have a: "parseJSONResponse decode_error_body decode_unit
     \<lparr>Status = 429, RespHeader = Map.empty, RespBody = Inr body_with_message\<rparr>
     = Inl (APIErr \<lparr>StatusCode = 429, Message = ''quota exceeded''\<rparr>)"
    using T[of "\<lparr>Status = 429, RespHeader = Map.empty, RespBody = Inr body_with_message\<rparr>"]
    by (simp add: decode_error_body_def)
  have b: "parseJSONResponse decode_error_body decode_unit
     \<lparr>Status = 429, RespHeader = Map.empty, RespBody = Inr body_without_message\<rparr>
     = Inl (APIErr \<lparr>StatusCode = 429, Message = body_without_message\<rparr>)"
    using T[of "\<lparr>Status = 429, RespHeader = Map.empty, RespBody = Inr body_without_message\<rparr>"]
      ne by (simp add: decode_error_body_def)
  have c: "parseJSONResponse decode_error_body decode_unit
     \<lparr>Status = 502, RespHeader = Map.empty, RespBody = Inr ''Bad Gateway''\<rparr>
     = Inl (APIErr \<lparr>StatusCode = 502, Message = ''Bad Gateway''\<rparr>)"
    using T[of "\<lparr>Status = 502, RespHeader = Map.empty, RespBody = Inr ''Bad Gateway''\<rparr>"]
      ne by (simp add: decode_error_body_def)
  have d: "parseJSONResponse decode_error_body decode_unit
     \<lparr>Status = 200, RespHeader = Map.empty, RespBody = Inr ''{''\<rparr>
     = Inl (UnmarshalFailed ''unexpected end of JSON input'')"
    using T[of "\<lparr>Status = 200, RespHeader = Map.empty, RespBody = Inr ''{''\<rparr>"]
    by (simp add: decode_unit_def)
  have e: "parseJSONResponse decode_error_body decode_unit
     \<lparr>Status = 200, RespHeader = Map.empty, RespBody = Inr ''{}''\<rparr> = Inr ()"
    using T[of "\<lparr>Status = 200, RespHeader = Map.empty, RespBody = Inr ''{}''\<rparr>"]
    by (simp add: decode_unit_def)
  have f: "parseJSONResponse decode_error_body decode_unit
     \<lparr>Status = 200, RespHeader = Map.empty, RespBody = Inl ''unexpected EOF''\<rparr>
     = Inl (ReadBodyFailed ''unexpected EOF'')"
    using T[of "\<lparr>Status = 200, RespHeader = Map.empty, RespBody = Inl ''unexpected EOF''\<rparr>"]
    by simp
  show ?thesis using a b c d e f by (intro conjI)
qed

text \<open>
  The claim as stated fails: a response with status 500 whose body cannot be read
  does not give an \<^verbatim>\<open>APIError\<close>.
\<close>

theorem decode_unreadable_body_counterexample:
  "parseJSONResponse decode_error_body decode_unit
     \<lparr>Status = 500, RespHeader = Map.empty, RespBody = Inl ''unexpected EOF''\<rparr>
     = Inl (ReadBodyFailed ''unexpected EOF'')
   \<and> is_APIError (ReadBodyFailed ''unexpected EOF'') = False"
  by (simp add: parseJSONResponse_def)

subsection \<open>The request of a chunk upload\<close>

lemma uploadChunk_direct_request:
  assumes "newRequestErr ''PUT'' url = None"
  shows "snd (uploadChunk newRequestErr httpDo chunk url partNumber) =
    [\<lparr>Method = ''PUT'', URL = url,
      ReqHeader = [''Content-Type'' \<mapsto> ''application/octet-stream'',
                   ''Content-Length'' \<mapsto> itoa (length chunk)],
      ReqBody = chunk, ContentLength = length chunk\<rparr>]"
  using assms by (simp add: uploadChunk_def Let_def split: sum.splits)

lemma uploadChunk_direct_no_credential:
  assumes "req \<in> set (snd (uploadChunk newRequestErr httpDo chunk url partNumber))"
  shows "URL req = url \<and> Method req = ''PUT'' \<and> ReqBody req = chunk
       \<and> ReqHeader req ''Authorization'' = None
       \<and> ReqHeader req ''Content-Type'' = Some ''application/octet-stream''
       \<and> ReqHeader req ''Content-Length'' = Some (itoa (length chunk))"
  using assms by (auto simp: uploadChunk_def Let_def split: option.splits sum.splits if_splits)

lemma uploadChunk_direct_result:
  "fst (uploadChunk newRequestErr httpDo chunk url partNumber) = Inr part \<longleftrightarrow>
     newRequestErr ''PUT'' url = None
   \<and> (\<exists>resp. httpDo \<lparr>Method = ''PUT'', URL = url,
                 ReqHeader = [''Content-Type'' \<mapsto> ''application/octet-stream'',
                              ''Content-Length'' \<mapsto> itoa (length chunk)],
                 ReqBody = chunk, ContentLength = length chunk\<rparr> = Inr resp
        \<and> Status resp = 200 \<and> Get (RespHeader resp) ''Etag'' \<noteq> []
        \<and> part = \<lparr>ETag = Get (RespHeader resp) ''Etag'', PartNumber = partNumber\<rparr>)"
  by (auto simp: uploadChunk_def Let_def split: option.splits sum.splits)

lemma uploadChunk_direct_once:
  "length (snd (uploadChunk newRequestErr httpDo chunk url partNumber)) \<le> 1"
  by (simp add: uploadChunk_def Let_def split: option.splits sum.splits)

lemma itoa_3: "itoa 3 = ''3''"
  by code_simp

lemma put_to_destination_200:
  "uploadChunk_PUT (destination 200) (NewGaiaApi demo_api_config) ''abc''
     ''https://s3.example/part1'' 1 =
   (Returns (Inr \<lparr>ETag = ''tag'', PartNumber = 1\<rparr>),
    [\<lparr>Method = ''PUT'', URL = ''https://api.examplehttps://s3.example/part1'',
      ReqHeader = standardHeaders ++ [''Authorization'' \<mapsto> ''Bearer secret'']
                    ++ [''Content-Type'' \<mapsto> ''application/octet-stream''],
      ReqBody = json_abc, ContentLength = 6\<rparr>])"
  apply (simp add: uploadChunk_PUT_def doRequest_def NewGaiaApi_def New_def demo_api_config_def
      destination_def marshal_abc_def Let_def)
  apply (subst attempts.simps)
  apply (simp add: newRequest_def any_request_ok_def applyHeaders_def shouldRetry_def Let_def
      Get_def json_abc_def)
  done

text \<open>
  Claim C6 holds of the revision of \<^verbatim>\<open>uploadChunk\<close> that builds its own request
  (the three lemmas above) and fails on the revision in
  \<^verbatim>\<open>src/internal/api/api.go\<close>, which hands the chunk to \<^verbatim>\<open>a.client.PUT\<close>. For
  the chunk \<open>abc\<close> and one presigned destination, the first revision sends the raw
  bytes to the destination with the two headers and no credential; the second
  sends the request to the base URL followed by the destination, with the bearer
  credential, a JSON encoding of the chunk as body and no Content-Length header
  of its own.
\<close>

theorem chunk_upload_through_client:
  "snd (uploadChunk any_request_ok answers_with_etag ''abc'' ''https://s3.example/part1'' 1) =
     [\<lparr>Method = ''PUT'', URL = ''https://s3.example/part1'',
       ReqHeader = [''Content-Type'' \<mapsto> ''application/octet-stream'',
                    ''Content-Length'' \<mapsto> ''3''],
       ReqBody = ''abc'', ContentLength = 3\<rparr>]
   \<and> map URL (snd (uploadChunk_PUT (destination 200) (NewGaiaApi demo_api_config) ''abc''
        ''https://s3.example/part1'' 1)) = [''https://api.examplehttps://s3.example/part1'']
   \<and> map (\<lambda>req. ReqHeader req ''Authorization'')
        (snd (uploadChunk_PUT (destination 200) (NewGaiaApi demo_api_config) ''abc''
           ''https://s3.example/part1'' 1)) = [Some ''Bearer secret'']
   \<and> map ReqBody (snd (uploadChunk_PUT (destination 200) (NewGaiaApi demo_api_config) ''abc''
        ''https://s3.example/part1'' 1)) = [json_abc]
   \<and> map (\<lambda>req. ReqHeader req ''Content-Length'')
        (snd (uploadChunk_PUT (destination 200) (NewGaiaApi demo_api_config) ''abc''
           ''https://s3.example/part1'' 1)) = [None]"
proof -
  have len: "length ''abc'' = 3" by simp
  have direct: "snd (uploadChunk any_request_ok answers_with_etag ''abc''
      ''https://s3.example/part1'' 1) =
     [\<lparr>Method = ''PUT'', URL = ''https://s3.example/part1'',
       ReqHeader = [''Content-Type'' \<mapsto> ''application/octet-stream'',
                    ''Content-Length'' \<mapsto> ''3''],
       ReqBody = ''abc'', ContentLength = 3\<rparr>]"
    using uploadChunk_direct_request[of any_request_ok "''https://s3.example/part1''"
        answers_with_etag "''abc''" 1]
    by (simp only: len itoa_3 any_request_ok_def)
  have sent: "snd (uploadChunk_PUT (destination 200) (NewGaiaApi demo_api_config) ''abc''
        ''https://s3.example/part1'' 1) =
    [\<lparr>Method = ''PUT'', URL = ''https://api.examplehttps://s3.example/part1'',
      ReqHeader = standardHeaders ++ [''Authorization'' \<mapsto> ''Bearer secret'']
                    ++ [''Content-Type'' \<mapsto> ''application/octet-stream''],
      ReqBody = json_abc, ContentLength = 6\<rparr>]"
    by (simp only: put_to_destination_200 snd_conv)
  show ?thesis
    unfolding sent using direct by (simp add: standardHeaders_def)
qed

subsection \<open>What a chunk task records\<close>

lemma chunkTask_direct_slots:
  assumes "i * CHUNK_SIZE \<le> length imageData"
  shows "chunkTask (\<lambda>chunk url partNumber.
                 Returns (fst (uploadChunk newRequestErr httpDo chunk url partNumber)))
               imageData i url
     = (case fst (uploadChunk newRequestErr httpDo
                    (byteRange imageData (i * CHUNK_SIZE)
                       (min ((i + 1) * CHUNK_SIZE) (length imageData))) url (i + 1)) of
          Inl err \<Rightarrow> Returns (None, Some err)
        | Inr part \<Rightarrow> Returns (Some part, None))"
  using assms by (simp add: chunkTask_in_range split: sum.splits)

lemma put_to_destination_403:
  "uploadChunk_PUT (destination 403) (NewGaiaApi demo_api_config) ''abc''
     ''https://s3.example/part1'' 1 =
   (Returns (Inr \<lparr>ETag = [], PartNumber = 1\<rparr>),
    [\<lparr>Method = ''PUT'', URL = ''https://api.examplehttps://s3.example/part1'',
      ReqHeader = standardHeaders ++ [''Authorization'' \<mapsto> ''Bearer secret'']
                    ++ [''Content-Type'' \<mapsto> ''application/octet-stream''],
      ReqBody = json_abc, ContentLength = 6\<rparr>])"
  apply (simp add: uploadChunk_PUT_def doRequest_def NewGaiaApi_def New_def demo_api_config_def
      destination_def marshal_abc_def Let_def)
  apply (subst attempts.simps)
  apply (simp add: newRequest_def any_request_ok_def applyHeaders_def shouldRetry_def Let_def
      Get_def json_abc_def)
  done

lemma put_to_destination_503:
  "length (snd (uploadChunk_PUT (destination 503) (NewGaiaApi demo_api_config) ''abc''
     ''https://s3.example/part1'' 1)) = 4
   \<and> fst (uploadChunk_PUT (destination 503) (NewGaiaApi demo_api_config) ''abc''
     ''https://s3.example/part1'' 1) = Returns (Inr \<lparr>ETag = [], PartNumber = 1\<rparr>)"
proof -
  have m: "maxRetries (NewGaiaApi demo_api_config) = 3"
    by (simp add: NewGaiaApi_def maxRetries_New)
  have h1: "0 \<le> maxRetries (NewGaiaApi demo_api_config)" by (simp add: m)
  have h2: "\<forall>n r. \<exists>resp. outcome (roundTrip (destination 503) n r) = Inr resp \<and> Status resp = 503"
    by (simp add: destination_def)
  have h3: "newRequestError (destination 503) ''PUT''
      (baseURL (NewGaiaApi demo_api_config) @ ''https://s3.example/part1'') = None"
    by (simp add: destination_def any_request_ok_def)
  have h4: "\<forall>p. Some ''abc'' = Some p
      \<longrightarrow> (\<exists>jsonData. json_Marshal (destination 503) p = Inr jsonData)"
    by (simp add: destination_def marshal_abc_def)
  have h5: "\<forall>req e. applyHeaders (NewGaiaApi demo_api_config) req
      [''Content-Type'' \<mapsto> ''application/octet-stream''] \<noteq> Inl e"
    by (simp add: NewGaiaApi_def applyHeaders_New)
  from doRequest_all_503[OF h1 h2 h3 h4 h5]
  obtain resp reqs where
    d: "doRequest (destination 503) (NewGaiaApi demo_api_config) ''PUT''
          ''https://s3.example/part1'' (Some ''abc'')
          [''Content-Type'' \<mapsto> ''application/octet-stream''] = ((Some resp, None), reqs)"
    and l: "length reqs = nat (maxRetries (NewGaiaApi demo_api_config)) + 1"
    and o: "outcome (roundTrip (destination 503)
              (nat (maxRetries (NewGaiaApi demo_api_config))) (last reqs)) = Inr resp"
    by blast
  from o have "RespHeader resp = Map.empty" by (auto simp: destination_def)
  then show ?thesis using d l by (simp add: uploadChunk_PUT_def m Get_def)
qed

text \<open>
  Claim C7 holds of the revision of \<^verbatim>\<open>uploadChunk\<close> that builds its own request:
  it sends at most one request, and leaves a part only for a 200 answer with an
  integrity tag (\<open>uploadChunk_direct_result\<close>, \<open>uploadChunk_direct_once\<close>,
  \<open>chunkTask_direct_slots\<close>). It fails on the revision in
  \<^verbatim>\<open>src/internal/api/api.go\<close>: a destination that answers 403 leaves an error
  with the first revision and a part with an empty tag, and no error, with the
  second; a destination that answers 503 is asked once by the first revision and
  four times by the second, which then also records a part.
\<close>

theorem chunk_task_through_client:
  "chunkTask (do_uploadChunk (demo_methods forbidden)) ''abc'' 0 ''https://s3.example/part1''
     = Returns (None, Some (ChunkStatusNotOK 1 403 (Inr ''Forbidden'')))
   \<and> chunkTask (uploadChunk_through_client 403) ''abc'' 0 ''https://s3.example/part1''
       = Returns (Some \<lparr>ETag = [], PartNumber = 1\<rparr>, None)
   \<and> length (snd (uploadChunk any_request_ok forbidden ''abc'' ''https://s3.example/part1'' 1))
       = 1
   \<and> length (snd (uploadChunk_PUT (destination 503) (NewGaiaApi demo_api_config) ''abc''
        ''https://s3.example/part1'' 1)) = 4
   \<and> chunkTask (uploadChunk_through_client 503) ''abc'' 0 ''https://s3.example/part1''
       = Returns (Some \<lparr>ETag = [], PartNumber = 1\<rparr>, None)"
proof -
  have r: "0 * CHUNK_SIZE \<le> length ''abc''" by simp
  have chunk: "byteRange ''abc'' (0 * CHUNK_SIZE) (min ((0 + 1) * CHUNK_SIZE) (length ''abc''))
      = ''abc''"
    by (simp add: byteRange_def CHUNK_SIZE_def)
  have a: "chunkTask (do_uploadChunk (demo_methods forbidden)) ''abc'' 0
      ''https://s3.example/part1''
     = Returns (None, Some (ChunkStatusNotOK 1 403 (Inr ''Forbidden'')))"
    unfolding chunkTask_in_range[OF r] chunk
    by (simp add: demo_methods_def uploadChunk_def any_request_ok_def forbidden_def Let_def)
  have b: "chunkTask (uploadChunk_through_client 403) ''abc'' 0 ''https://s3.example/part1''
       = Returns (Some \<lparr>ETag = [], PartNumber = 1\<rparr>, None)"
    unfolding chunkTask_in_range[OF r] chunk
    using put_to_destination_403 by (simp add: uploadChunk_through_client_def)
  have c: "length (snd (uploadChunk any_request_ok forbidden ''abc''
      ''https://s3.example/part1'' 1)) = 1"
    by (simp add: uploadChunk_direct_request any_request_ok_def)
  have e: "chunkTask (uploadChunk_through_client 503) ''abc'' 0 ''https://s3.example/part1''
       = Returns (Some \<lparr>ETag = [], PartNumber = 1\<rparr>, None)"
    unfolding chunkTask_in_range[OF r] chunk
    using put_to_destination_503 by (simp add: uploadChunk_through_client_def)
  show ?thesis using a b c e put_to_destination_503 by (intro conjI) simp_all
qed

subsection \<open>References with another scheme\<close>

lemma Do_other_scheme:
  assumes "Scheme (URL req) \<noteq> ''http''" and "Scheme (URL req) \<noteq> ''https''"
  shows "Do L req =
    (Inl (url_Error L (urlErrorOp (Method req)) (URL_String L (URL req))
            (''unsupported protocol scheme '' @ strconv_Quote L (Scheme (URL req)))), [])"
  using assms by (simp add: Do_def)

lemma Do_sends_at_most_once:
  "snd (Do L req) = (if Scheme (URL req) \<noteq> ''http'' \<and> Scheme (URL req) \<noteq> ''https'' then [] else [req])"
  by (simp add: Do_def split: sum.splits)

lemma urlErrorOp_GET: "urlErrorOp ''GET'' = ''Get''"
  by code_simp

lemma downloadImage_other_scheme:
  assumes "Scheme url \<noteq> ''http''" and "Scheme url \<noteq> ''https''"
  shows "downloadImage L config url =
    (Inl (case Parse_error L url of
            Some err \<Rightarrow> ''creating request: '' @ err
          | None \<Rightarrow> ''downloading image: '' @
                url_Error L ''Get'' (URL_String L url)
                  (''unsupported protocol scheme '' @ strconv_Quote L (Scheme url))), [])"
proof (cases "Parse_error L url")
  case None
  then show ?thesis
    using assms by (simp add: downloadImage_def NewRequestWithContext_def Do_other_scheme
        urlErrorOp_GET Let_def)
next
  case (Some err)
  then show ?thesis by (simp add: downloadImage_def NewRequestWithContext_def)
qed

lemma processImage_other_scheme:
  assumes "Scheme imageUrl \<noteq> ''http''" and "Scheme imageUrl \<noteq> ''https''"
  shows "processImage L imageUrl =
    (Inl (''failed to process image: downloading image: '' @
          (case Parse_error L imageUrl of
             Some err \<Rightarrow> ''creating request: '' @ err
           | None \<Rightarrow> ''downloading image: '' @
                 url_Error L ''Get'' (URL_String L imageUrl)
                   (''unsupported protocol scheme '' @ strconv_Quote L (Scheme imageUrl)))), [])"
  by (simp add: processImage_def ProcessImageNoResizeForMCP_def ProcessImageFromURLForMCP_def
      downloadImage_other_scheme[OF assms])

text \<open>
  Conversely, whatever \<^verbatim>\<open>processImage\<close> sends, it sends for a reference that
  parses and has scheme \<open>http\<close> or \<open>https\<close>.
\<close>

lemma downloadImage_sent:
  assumes "snd (downloadImage L config url) \<noteq> []"
  shows "Parse_error L url = None \<and> (Scheme url = ''http'' \<or> Scheme url = ''https'')"
  using assms
  by (auto simp: downloadImage_def NewRequestWithContext_def Do_def Let_def
      split: option.splits sum.splits prod.splits if_splits)

lemma processImage_sent:
  assumes "snd (processImage L imageUrl) \<noteq> []"
  shows "Parse_error L imageUrl = None \<and> (Scheme imageUrl = ''http'' \<or> Scheme imageUrl = ''https'')"
proof -
  have "snd (downloadImage L (DefaultConfig\<lparr>MaxWidth := 100000, MaxHeight := 100000\<rparr>) imageUrl) \<noteq> []
        \<or> snd (downloadImage L DefaultConfig imageUrl) \<noteq> []"
    using assms
    by (auto simp: processImage_def ProcessImageNoResizeForMCP_def ProcessImageFromURLForMCP_def
        GetImageDimensions_def split: sum.splits prod.splits)
  then show ?thesis using downloadImage_sent by blast
qed

text \<open>
  For contrast, a reference with scheme \<open>https\<close> that parses is sent, and sent
  twice when the first download succeeds: once for the bytes and once for the
  dimensions.
\<close>

lemma downloadImage_http_sent:
  assumes "Scheme url = ''http'' \<or> Scheme url = ''https''" and "Parse_error L url = None"
  shows "snd (downloadImage L config url) =
    [\<lparr>Method = ''GET'', URL = url, ReqHeader = [''User-Agent'' \<mapsto> UserAgent config],
      ReqBody = [], ContentLength = 0\<rparr>]"
  using assms
  by (auto simp: downloadImage_def NewRequestWithContext_def Do_def Let_def
      split: sum.splits prod.splits)

lemma demo_fetch:
  "processImage demo_library ''https://example.com/a.png''
     = (Inr (''PNG'', 640, 480),
        [\<lparr>Method = ''GET'', URL = ''https://example.com/a.png'',
           ReqHeader = [''User-Agent'' \<mapsto> ''Gaia-MCP-Go/1.0''], ReqBody = [], ContentLength = 0\<rparr>,
         \<lparr>Method = ''GET'', URL = ''https://example.com/a.png'',
           ReqHeader = [''User-Agent'' \<mapsto> ''Gaia-MCP-Go/1.0''], ReqBody = [], ContentLength = 0\<rparr>])"
proof -
  have s: "Scheme ''https://example.com/a.png'' = ''https''"
    by (simp add: Scheme_def getScheme_def beforeFragment_def ToLower_def isLower_def
        isUpper_def isDigit_def)
  have p: "Parse_error demo_library ''https://example.com/a.png'' = None"
    by (simp add: Parse_error_def getScheme_def beforeFragment_def stringContainsCTLByte_def
        isLower_def isUpper_def isDigit_def demo_library_def Let_def)
  have d: "downloadImage demo_library config ''https://example.com/a.png''
     = (Inr ((640, 480), ''png''),
        [\<lparr>Method = ''GET'', URL = ''https://example.com/a.png'',
           ReqHeader = [''User-Agent'' \<mapsto> UserAgent config], ReqBody = [], ContentLength = 0\<rparr>])"
    for config
    using s p by (simp add: downloadImage_def NewRequestWithContext_def Do_def Let_def demo_library_def)
  have r: "resizeImage_of demo_library
             (DefaultConfig\<lparr>MaxWidth := 100000, MaxHeight := 100000\<rparr>) (640, 480) = (640, 480)"
    by (simp add: resizeImage_of_def resizeImage_def demo_library_def)
  have e: "encodeImageToBase64Pure demo_library config (640, 480) ''png''
             = Inr (''UE5H'', ''image/png'')" for config
    by (simp add: encodeImageToBase64Pure_def demo_library_def)
  have b: "DecodeString demo_library ''UE5H'' = Inr ''PNG''"
    by (simp add: demo_library_def)
  have g: "GetImageDimensions demo_library ''https://example.com/a.png''
     = (Inr (640, 480),
        [\<lparr>Method = ''GET'', URL = ''https://example.com/a.png'',
           ReqHeader = [''User-Agent'' \<mapsto> UserAgent DefaultConfig], ReqBody = [],
           ContentLength = 0\<rparr>])"
    by (simp add: GetImageDimensions_def d) (simp add: demo_library_def)
  have n: "ProcessImageNoResizeForMCP demo_library ''https://example.com/a.png''
     = (Inr (''UE5H'', ''image/png''),
        [\<lparr>Method = ''GET'', URL = ''https://example.com/a.png'',
           ReqHeader = [''User-Agent'' \<mapsto> UserAgent DefaultConfig], ReqBody = [],
           ContentLength = 0\<rparr>])"
    by (simp add: ProcessImageNoResizeForMCP_def ProcessImageFromURLForMCP_def d r e)
  have ua: "UserAgent DefaultConfig = ''Gaia-MCP-Go/1.0''"
    by (simp add: DefaultConfig_def)
  show ?thesis
    by (simp add: processImage_def n b g ua)
qed

text \<open>
  Claim C9. A reference whose scheme, as the HTTP library reads it, is neither
  \<open>http\<close> nor \<open>https\<close> is refused without network work: \<^verbatim>\<open>processImage\<close> returns an
  error for it and no request of its download passes the scheme check of the
  transport, whatever the library and the network would do otherwise. In the
  pipeline the reference is recorded as failed: with the validation message and
  no call at all when it does not begin with \<open>http\<close>, otherwise with the local
  error of \<^verbatim>\<open>processImage\<close> (the reference does not parse, or its scheme is not
  supported) after the one call of \<^verbatim>\<open>processImage\<close>. Neither the initialize, nor
  a chunk upload, nor the finalize call is made for it, and a batch that
  contains it and runs to its end returns the aggregate error, which lists the
  reference with that reason.
\<close>

theorem other_scheme_rejected_locally:
  assumes "Scheme imageUrl \<noteq> ''http''" and "Scheme imageUrl \<noteq> ''https''"
  shows "snd (processImage L imageUrl) = []
     \<and> fst (processImage L imageUrl)
         = Inl (''failed to process image: downloading image: '' @
               (case Parse_error L imageUrl of
                  Some err \<Rightarrow> ''creating request: '' @ err
                | None \<Rightarrow> ''downloading image: '' @
                      url_Error L ''Get'' (URL_String L imageUrl)
                        (''unsupported protocol scheme '' @ strconv_Quote L (Scheme imageUrl))))
     \<and> uploadImage (with_processImage L M) r imageUrl
         = (if HasPrefix imageUrl ''http''
            then (Failed (case fst (processImage L imageUrl) of Inl err \<Rightarrow> err | Inr ok \<Rightarrow> []),
                  [CallProcessImage imageUrl])
            else (Failed ''URL must start with http:// or https://'', []))
     \<and> (imageUrl \<in> set imageUrls
          \<and> (\<forall>u\<in>set imageUrls. fst (uploadImage (with_processImage L M) r u) \<noteq> Crashed)
        \<longrightarrow> (\<exists>failedFiles.
               fst (UploadImages (with_processImage L M) imageUrls r) = Returns (Inl failedFiles)
             \<and> (imageUrl,
                  if HasPrefix imageUrl ''http''
                  then (case fst (processImage L imageUrl) of Inl err \<Rightarrow> err | Inr ok \<Rightarrow> [])
                  else ''URL must start with http:// or https://'') \<in> set failedFiles))"
proof -
  let ?M = "with_processImage L M"
  let ?reason = "if HasPrefix imageUrl ''http''
                  then (case fst (processImage L imageUrl) of Inl err \<Rightarrow> err | Inr ok \<Rightarrow> [])
                  else ''URL must start with http:// or https://''"
  note p = processImage_other_scheme[OF assms, of L]
  have sent: "snd (processImage L imageUrl) = []" using p by simp
  have err: "fst (processImage L imageUrl)
         = Inl (''failed to process image: downloading image: '' @
               (case Parse_error L imageUrl of
                  Some err \<Rightarrow> ''creating request: '' @ err
                | None \<Rightarrow> ''downloading image: '' @
                      url_Error L ''Get'' (URL_String L imageUrl)
                        (''unsupported protocol scheme '' @ strconv_Quote L (Scheme imageUrl))))"
    using p by simp
  have up: "uploadImage ?M r imageUrl
         = (if HasPrefix imageUrl ''http''
            then (Failed (case fst (processImage L imageUrl) of Inl err \<Rightarrow> err | Inr ok \<Rightarrow> []),
                  [CallProcessImage imageUrl])
            else (Failed ''URL must start with http:// or https://'', []))"
    by (simp add: uploadImage_def with_processImage_def err)
  have batch: "\<exists>failedFiles.
               fst (UploadImages ?M imageUrls r) = Returns (Inl failedFiles)
             \<and> (imageUrl, ?reason) \<in> set failedFiles"
    if mem: "imageUrl \<in> set imageUrls"
      and nc: "\<forall>u\<in>set imageUrls. fst (uploadImage ?M r u) \<noteq> Crashed"
  proof -
    let ?F = "concat (map (\<lambda>u. case fst (uploadImage ?M r u) of
                                  Failed reason \<Rightarrow> [(u, reason)] | _ \<Rightarrow> []) imageUrls)"
    have f: "fst (uploadImage ?M r imageUrl) = Failed ?reason" using up by simp
    have inF: "(imageUrl, ?reason) \<in> set ?F" by (rule failed_entry_listed[OF mem f])
    have ne: "?F \<noteq> []"
    proof
      assume "?F = []"
      with inF show False by (simp only: list.set empty_iff)
    qed
    have "fst (UploadImages ?M imageUrls r) = Returns (Inl ?F)"
      using uploadLoop_no_crash[OF nc, of "[]" "[]" "[]"] ne by (simp add: UploadImages_def)
    with inF show ?thesis by blast
  qed
  show ?thesis
    using sent err up batch by blast
qed

theorem other_scheme_rejected_locally_witness:
  "Scheme ''httpx://example.com/a.png'' = ''httpx''
   \<and> HasPrefix ''httpx://example.com/a.png'' ''http''
   \<and> processImage demo_library ''httpx://example.com/a.png'' = (Inl unsupported_scheme, [])
   \<and> uploadImage fetching_methods () ''httpx://example.com/a.png''
     = (Failed unsupported_scheme, [CallProcessImage ''httpx://example.com/a.png''])
   \<and> UploadImages fetching_methods
        [''httpx://example.com/a.png'', ''ftp://example.com/c.png''] ()
     = (Returns (Inl [(''httpx://example.com/a.png'', unsupported_scheme),
                      (''ftp://example.com/c.png'', ''URL must start with http:// or https://'')]),
        [CallProcessImage ''httpx://example.com/a.png''])"
proof -
  let ?u = "''httpx://example.com/a.png''"
  have s: "Scheme ?u = ''httpx''"
    by (simp add: Scheme_def getScheme_def beforeFragment_def ToLower_def isLower_def
        isUpper_def isDigit_def)
  have s1: "Scheme ?u \<noteq> ''http''" and s2: "Scheme ?u \<noteq> ''https''"
    using s by simp_all
  have pre: "HasPrefix ?u ''http''" by (simp add: HasPrefix_def)
  have pe: "Parse_error demo_library ?u = None"
    by (simp add: Parse_error_def getScheme_def beforeFragment_def stringContainsCTLByte_def
        isLower_def isUpper_def isDigit_def demo_library_def Let_def)
  have msg: "''failed to process image: downloading image: '' @
               (''downloading image: '' @
                      url_Error demo_library ''Get'' (URL_String demo_library ?u)
                        (''unsupported protocol scheme '' @ strconv_Quote demo_library ''httpx''))
             = unsupported_scheme"
    by (simp add: url_Error_def demo_library_def quoted_def unsupported_scheme_def)
  note inst = other_scheme_rejected_locally[OF s1 s2, of demo_library
      "demo_methods answers_with_etag" "()" "[?u, ''ftp://example.com/c.png'']"]
  have a: "processImage demo_library ?u = (Inl unsupported_scheme, [])"
    using inst pe s msg by (simp add: prod_eq_iff)
  have b: "uploadImage fetching_methods () ?u = (Failed unsupported_scheme, [CallProcessImage ?u])"
    using inst pre a by (simp add: fetching_methods_def)
  have c: "uploadImage fetching_methods () ''ftp://example.com/c.png''
             = (Failed ''URL must start with http:// or https://'', [])"
    by (rule uploadImage_rejected) (simp add: HasPrefix_def)
  have d: "UploadImages fetching_methods [?u, ''ftp://example.com/c.png''] ()
     = (Returns (Inl [(?u, unsupported_scheme),
                      (''ftp://example.com/c.png'', ''URL must start with http:// or https://'')]),
        [CallProcessImage ?u])"
    by (simp add: UploadImages_def b c)
  show ?thesis using s pre a b d by (intro conjI)
qed

section \<open>Properties of resizing\<close>

subsection \<open>Rounding to \<^verbatim>\<open>float64\<close>\<close>

lemma floorlog2_bounds:
  assumes "0 < x"
  shows "2 powi floorlog2 x \<le> x" and "x < 2 powi (floorlog2 x + 1)"
proof -
  obtain p q where pq: "quotient_of x = (p, q)" by (cases "quotient_of x")
  have q: "0 < q" using quotient_of_denom_pos[OF pq] .
  have x: "x = of_int p / of_int q" using quotient_of_div[OF pq] .
  have p: "0 < p" using assms q x by (simp add: zero_less_divide_iff)
  define bp bq where "bp = bitlen p" and "bq = bitlen q"
  have bp1: "1 \<le> bp" and bq1: "1 \<le> bq"
    using p q bitlen_eq_zero_iff[of p] bitlen_eq_zero_iff[of q] bitlen_nonneg[of p]
      bitlen_nonneg[of q] unfolding bp_def bq_def by linarith+
  have plo: "(2::rat) powi (bp - 1) \<le> of_int p" and phi: "of_int p < (2::rat) powi bp"
  proof -
    from bitlen_bounds[OF p] have "2 ^ nat (bp - 1) \<le> p" "p < 2 ^ nat bp"
      unfolding bp_def by simp_all
    then have "(of_int (2 ^ nat (bp - 1)) :: rat) \<le> of_int p" "(of_int p :: rat) < of_int (2 ^ nat bp)"
      by (simp_all only: of_int_le_iff of_int_less_iff)
    then show "(2::rat) powi (bp - 1) \<le> of_int p" "of_int p < (2::rat) powi bp"
      using bp1 by (simp_all add: power_int_def)
  qed
  have qlo: "(2::rat) powi (bq - 1) \<le> of_int q" and qhi: "of_int q < (2::rat) powi bq"
  proof -
    from bitlen_bounds[OF q] have "2 ^ nat (bq - 1) \<le> q" "q < 2 ^ nat bq"
      unfolding bq_def by simp_all
    then have "(of_int (2 ^ nat (bq - 1)) :: rat) \<le> of_int q" "(of_int q :: rat) < of_int (2 ^ nat bq)"
      by (simp_all only: of_int_le_iff of_int_less_iff)
    then show "(2::rat) powi (bq - 1) \<le> of_int q" "of_int q < (2::rat) powi bq"
      using bq1 by (simp_all add: power_int_def)
  qed
  have qpos: "(0::rat) < of_int q" using q by simp
  have up: "x < 2 powi (bp - bq + 1)"
  proof -
    have "x < 2 powi bp / of_int q" unfolding x using phi qpos by (simp add: divide_strict_right_mono)
    also have "\<dots> \<le> 2 powi bp / 2 powi (bq - 1)"
      using qlo qpos by (intro divide_left_mono) (simp_all add: zero_less_mult_iff)
    also have "\<dots> = 2 powi (bp - bq + 1)"
      by (simp add: power_int_diff[symmetric] algebra_simps)
    finally show ?thesis .
  qed
  have low: "2 powi (bp - bq - 1) < x"
  proof -
    have "(2::rat) powi (bp - bq - 1) = 2 powi (bp - 1) / 2 powi bq"
      by (simp add: power_int_diff[symmetric] algebra_simps)
    also have "\<dots> < 2 powi (bp - 1) / of_int q"
      using qhi qpos by (intro divide_strict_left_mono) (simp_all add: zero_less_mult_iff)
    also have "\<dots> \<le> x" unfolding x using plo qpos by (simp add: divide_right_mono)
    finally show ?thesis .
  qed
  have fl: "floorlog2 x = (if 2 powi (bp - bq) \<le> x then bp - bq else bp - bq - 1)"
    by (simp add: floorlog2_def pq bp_def bq_def Let_def)
  show "2 powi floorlog2 x \<le> x" using low by (simp add: fl)
  show "x < 2 powi (floorlog2 x + 1)" using up by (auto simp: fl not_le)
qed

lemma floorlog2_unique:
  assumes "0 < x" "2 powi e \<le> x" "x < 2 powi (e + 1)"
  shows "floorlog2 x = e"
proof -
  have a: "(2::rat) powi floorlog2 x < 2 powi (e + 1)"
    using floorlog2_bounds(1)[OF assms(1)] assms(3) by linarith
  have b: "(2::rat) powi e < 2 powi (floorlog2 x + 1)"
    using floorlog2_bounds(2)[OF assms(1)] assms(2) by linarith
  have "floorlog2 x < e + 1"
  proof (rule ccontr)
    assume "\<not> floorlog2 x < e + 1"
    then have "(2::rat) powi (e + 1) \<le> 2 powi floorlog2 x"
      by (intro power_int_increasing) simp_all
    with a show False by simp
  qed
  moreover have "e < floorlog2 x + 1"
  proof (rule ccontr)
    assume "\<not> e < floorlog2 x + 1"
    then have "(2::rat) powi (floorlog2 x + 1) \<le> 2 powi e"
      by (intro power_int_increasing) simp_all
    with b show False by simp
  qed
  ultimately show ?thesis by linarith
qed

lemma roundHalfEven_bounds: "of_int \<lfloor>m\<rfloor> \<le> (of_int (roundHalfEven m) :: rat)"
  "roundHalfEven m \<le> \<lceil>m\<rceil>" "\<lfloor>m\<rfloor> \<le> roundHalfEven m" "roundHalfEven m \<le> \<lfloor>m\<rfloor> + 1"
proof -
  show f: "\<lfloor>m\<rfloor> \<le> roundHalfEven m" by (simp add: roundHalfEven_def Let_def)
  then show "of_int \<lfloor>m\<rfloor> \<le> (of_int (roundHalfEven m) :: rat)" by simp
  show "roundHalfEven m \<le> \<lfloor>m\<rfloor> + 1" by (simp add: roundHalfEven_def Let_def)
  show "roundHalfEven m \<le> \<lceil>m\<rceil>"
  proof (cases "m = of_int \<lfloor>m\<rfloor>")
    case True
    then have "m - of_int \<lfloor>m\<rfloor> = 0" by simp
    then have "roundHalfEven m = \<lfloor>m\<rfloor>" by (simp add: roundHalfEven_def Let_def)
    then show ?thesis by (simp add: floor_le_ceiling)
  next
    case False
    then have "\<lceil>m\<rceil> = \<lfloor>m\<rfloor> + 1" by (simp add: ceiling_altdef)
    then show ?thesis by (simp add: roundHalfEven_def Let_def)
  qed
qed

lemma roundHalfEven_of_int [simp]: "roundHalfEven (of_int k) = k"
  by (simp add: roundHalfEven_def Let_def)

lemma roundHalfEven_mono:
  assumes "a \<le> b"
  shows "roundHalfEven a \<le> roundHalfEven b"
proof (cases "\<lfloor>a\<rfloor> < \<lfloor>b\<rfloor>")
  case True
  have "roundHalfEven a \<le> \<lfloor>a\<rfloor> + 1" by (rule roundHalfEven_bounds)
  also have "\<dots> \<le> \<lfloor>b\<rfloor>" using True by simp
  also have "\<dots> \<le> roundHalfEven b" by (rule roundHalfEven_bounds)
  finally show ?thesis .
next
  case False
  then have eq: "\<lfloor>a\<rfloor> = \<lfloor>b\<rfloor>" using floor_mono[OF assms] by linarith
  have "a - of_int \<lfloor>b\<rfloor> \<le> b - of_int \<lfloor>b\<rfloor>" using assms by simp
  then show ?thesis
    by (auto simp: roundHalfEven_def Let_def eq)
qed

lemma roundHalfEven_le_int:
  assumes "m \<le> of_int N"
  shows "roundHalfEven m \<le> N"
  using roundHalfEven_mono[OF assms] by simp

lemma roundHalfEven_ge_int:
  assumes "of_int N \<le> m"
  shows "N \<le> roundHalfEven m"
  using roundHalfEven_mono[OF assms] by simp

lemma round64_pos_eq:
  assumes "0 < x"
  shows "round64 x = of_int (roundHalfEven (x / 2 powi (floorlog2 x - 52))) * 2 powi (floorlog2 x - 52)"
  using assms by (simp add: round64_def Let_def)

lemma round64_binade:
  assumes "0 < x"
  shows "2 powi floorlog2 x \<le> round64 x" and "round64 x \<le> 2 powi (floorlog2 x + 1)"
proof -
  let ?e = "floorlog2 x" and ?u = "(2::rat) powi (floorlog2 x - 52)"
  have u: "0 < ?u" by simp
  have lo: "of_int (2 ^ 52) \<le> x / ?u"
  proof -
    have "(2::rat) powi ?e = 2 ^ 52 * ?u"
      by (simp add: power_int_diff)
    then show ?thesis using floorlog2_bounds(1)[OF assms] u by (simp add: le_divide_eq)
  qed
  have hi: "x / ?u \<le> of_int (2 ^ 53)"
  proof -
    have "(2::rat) powi (?e + 1) = 2 ^ 53 * ?u"
      by (simp add: power_int_diff power_int_add)
    then show ?thesis using floorlog2_bounds(2)[OF assms] u by (simp add: divide_le_eq)
  qed
  have u0: "0 \<le> ?u" by simp
  have r1: "(of_int (2 ^ 52) :: rat) \<le> of_int (roundHalfEven (x / ?u))"
    using roundHalfEven_ge_int[OF lo] by (simp only: of_int_le_iff)
  have r2: "(of_int (roundHalfEven (x / ?u)) :: rat) \<le> of_int (2 ^ 53)"
    using roundHalfEven_le_int[OF hi] by (simp only: of_int_le_iff)
  have "2 powi ?e = of_int (2 ^ 52) * ?u" by (simp add: power_int_diff)
  also have "\<dots> \<le> of_int (roundHalfEven (x / ?u)) * ?u"
    by (rule mult_right_mono[OF r1 u0])
  finally show "2 powi ?e \<le> round64 x" by (simp add: round64_pos_eq[OF assms])
  have "of_int (roundHalfEven (x / ?u)) * ?u \<le> of_int (2 ^ 53) * ?u"
    by (rule mult_right_mono[OF r2 u0])
  also have "\<dots> = 2 powi (?e + 1)" by (simp add: power_int_diff power_int_add)
  finally show "round64 x \<le> 2 powi (?e + 1)" by (simp add: round64_pos_eq[OF assms])
qed

lemma round64_mono_pos:
  assumes "0 < x" "x \<le> y"
  shows "round64 x \<le> round64 y"
proof -
  have y: "0 < y" using assms by simp
  have le: "floorlog2 x \<le> floorlog2 y"
  proof (rule ccontr)
    assume "\<not> floorlog2 x \<le> floorlog2 y"
    then have "(2::rat) powi (floorlog2 y + 1) \<le> 2 powi floorlog2 x"
      by (intro power_int_increasing) simp_all
    with floorlog2_bounds(1)[OF assms(1)] floorlog2_bounds(2)[OF y] assms(2)
    show False by linarith
  qed
  show ?thesis
  proof (cases "floorlog2 x = floorlog2 y")
    case True
    let ?u = "(2::rat) powi (floorlog2 y - 52)"
    have u: "0 < ?u" by simp
    have "x / ?u \<le> y / ?u" using assms(2) u by (simp add: divide_right_mono)
    then have "roundHalfEven (x / ?u) \<le> roundHalfEven (y / ?u)" by (rule roundHalfEven_mono)
    then have "(of_int (roundHalfEven (x / ?u)) :: rat) * ?u \<le> of_int (roundHalfEven (y / ?u)) * ?u"
      using u by (intro mult_right_mono) simp_all
    then show ?thesis by (simp add: round64_pos_eq[OF assms(1)] round64_pos_eq[OF y] True)
  next
    case False
    then have "floorlog2 x + 1 \<le> floorlog2 y" using le by simp
    then have "(2::rat) powi (floorlog2 x + 1) \<le> 2 powi floorlog2 y"
      by (intro power_int_increasing) simp_all
    with round64_binade(2)[OF assms(1)] round64_binade(1)[OF y] show ?thesis by linarith
  qed
qed

lemma round64_zero [simp]: "round64 0 = 0"
  by (simp add: round64_def)

lemma round64_nonneg: "0 \<le> x \<Longrightarrow> 0 \<le> round64 x"
proof (cases "x = 0")
  case True
  then show ?thesis by simp
next
  case False
  assume "0 \<le> x"
  then have "0 < x" using False by simp
  from round64_binade(1)[OF this] have "(2::rat) powi floorlog2 x \<le> round64 x" .
  moreover have "(0::rat) < 2 powi floorlog2 x" by simp
  ultimately show ?thesis by linarith
qed

lemma round64_mono:
  assumes "0 \<le> x" "x \<le> y"
  shows "round64 x \<le> round64 y"
proof (cases "x = 0")
  case True
  then show ?thesis using round64_nonneg[of y] assms by simp
next
  case False
  then show ?thesis using assms by (intro round64_mono_pos) simp_all
qed

lemma round64_of_int_exact:
  assumes "0 < n" "n < 2 ^ 53"
  shows "round64 (of_int n) = of_int n"
proof -
  let ?x = "of_int n :: rat"
  have x: "0 < ?x" using assms by simp
  have e: "floorlog2 ?x \<le> 52"
  proof (rule ccontr)
    assume "\<not> floorlog2 ?x \<le> 52"
    then have "(2::rat) powi 53 \<le> 2 powi floorlog2 ?x"
      by (intro power_int_increasing) simp_all
    with floorlog2_bounds(1)[OF x] have "(2::rat) ^ 53 \<le> of_int n" by simp
    then have "(of_int (2 ^ 53) :: rat) \<le> of_int n" by simp
    then have "2 ^ 53 \<le> n" by (simp only: of_int_le_iff)
    with assms show False by simp
  qed
  define k where "k = nat (52 - floorlog2 ?x)"
  have u: "(2::rat) powi (floorlog2 ?x - 52) = 1 / 2 ^ k"
  proof -
    have "floorlog2 ?x - 52 = - int k" using e by (simp add: k_def)
    then show ?thesis by (simp add: power_int_minus_divide)
  qed
  have "?x / (2 powi (floorlog2 ?x - 52)) = of_int (n * 2 ^ k)"
    by (simp add: u)
  then have "roundHalfEven (?x / (2 powi (floorlog2 ?x - 52))) = n * 2 ^ k"
    by (simp only: roundHalfEven_of_int)
  then show ?thesis
    by (simp add: round64_pos_eq[OF x] u)
qed

lemma round64_one [simp]: "round64 1 = 1"
  using round64_of_int_exact[of 1] by simp

lemma round64_below_one: "round64 (1 - 1 / 2 ^ 53) = 1 - 1 / 2 ^ 53"
  by code_simp

lemma ratio_rounds_below_one:
  assumes "0 < m" "m < s" "s < 2 ^ 53"
  shows "round64 (of_int m / of_int s) < 1"
proof -
  have s: "(0::rat) < of_int s" using assms by simp
  have "(of_int m :: rat) \<le> of_int s - 1" using assms by (simp flip: of_int_diff)
  then have "(of_int m :: rat) / of_int s \<le> (of_int s - 1) / of_int s"
    using s by (simp add: divide_right_mono)
  also have "\<dots> = 1 - 1 / of_int s" using s by (simp add: field_simps)
  also have "\<dots> \<le> 1 - 1 / 2 ^ 53"
  proof -
    have "(of_int s :: rat) \<le> of_int (2 ^ 53)" using assms by (simp only: of_int_le_iff)
    then have "(1::rat) / 2 ^ 53 \<le> 1 / of_int s" using s by (simp add: frac_le)
    then show ?thesis by simp
  qed
  finally have le: "(of_int m :: rat) / of_int s \<le> 1 - 1 / 2 ^ 53" .
  have "0 \<le> (of_int m :: rat) / of_int s" using assms by simp
  from round64_mono[OF this le]
  have "round64 (of_int m / of_int s) \<le> 1 - 1 / 2 ^ 53"
    by (simp only: round64_below_one)
  also have "\<dots> < (1::rat)" by simp
  finally show ?thesis .
qed

lemma ratio_rounds_at_least_one:
  assumes "0 < s" "s \<le> m"
  shows "1 \<le> round64 (of_int m / of_int s)"
proof -
  have "(1::rat) \<le> of_int m / of_int s" using assms by simp
  from round64_mono[OF _ this] show ?thesis by simp
qed

lemma toward_zero_nonneg: "0 \<le> x \<Longrightarrow> toward_zero x = \<lfloor>x\<rfloor>"
  by (simp add: toward_zero_def)

lemma scaled_dimension:
  assumes "0 < n" "n < 2 ^ 53" "0 \<le> scale" "scale \<le> 1"
  shows "int_of_float64 (fmul (float64_of_int n) (Finite scale))
           = Some (toward_zero (round64 (of_int n * scale)))"
    and "0 \<le> toward_zero (round64 (of_int n * scale))"
    and "toward_zero (round64 (of_int n * scale)) \<le> n"
proof -
  let ?p = "round64 (of_int n * scale)"
  have n: "(0::rat) < of_int n" using assms by simp
  have p0: "0 \<le> of_int n * scale" using assms n by simp
  have ple: "of_int n * scale \<le> of_int n" using assms n by (simp add: mult_left_le)
  have lo: "0 \<le> ?p" using p0 by (rule round64_nonneg)
  have hi: "?p \<le> of_int n"
    using round64_mono[OF p0 ple] round64_of_int_exact[OF assms(1,2)] by simp
  show t0: "0 \<le> toward_zero ?p" using lo by (simp add: toward_zero_nonneg)
  show tn: "toward_zero ?p \<le> n"
  proof -
    have "\<lfloor>?p\<rfloor> \<le> \<lfloor>of_int n :: rat\<rfloor>" using hi by (rule floor_mono)
    then show ?thesis using lo by (simp add: toward_zero_nonneg)
  qed
  have "toward_zero ?p < 2 ^ 63" using tn assms(2) by simp
  moreover have "- (2 ^ 63) \<le> toward_zero ?p" using t0 by simp
  ultimately show "int_of_float64 (fmul (float64_of_int n) (Finite scale)) = Some (toward_zero ?p)"
    by (simp add: float64_of_int_def round64_of_int_exact[OF assms(1,2)] Let_def)
qed

subsection \<open>The dimensions of the resized image\<close>

lemma float_ratio:
  assumes "0 < m" "m < 2 ^ 53" "0 < s" "s < 2 ^ 53"
  shows "fdiv (float64_of_int m) (float64_of_int s) = Finite (round64 (of_int m / of_int s))"
  using assms by (simp add: float64_of_int_def round64_of_int_exact)

text \<open>
  Claim C8, as amended. For positive source dimensions and bounds below \<open>2 ^ 53\<close>,
  with \<open>scale\<close> the smaller of the two \<^verbatim>\<open>float64\<close> quotients
  \<open>maxWidth / srcWidth\<close> and \<open>maxHeight / srcHeight\<close>: \<open>scale \<ge> 1\<close> holds exactly
  when the source fits the bounds, which is also when the exact minimum of the
  quotients is at least 1, and then the image is returned unchanged; otherwise it
  is resampled with \<^verbatim>\<open>draw.BiLinear\<close> to the \<^verbatim>\<open>float64\<close> products
  \<open>srcWidth * scale\<close> and \<open>srcHeight * scale\<close> with their fractions dropped (not
  rounded to the nearest integer), and neither dimension grows.
\<close>

theorem resize_truncates:
  assumes "0 < srcWidth" "srcWidth < 2 ^ 53" "0 < srcHeight" "srcHeight < 2 ^ 53"
    and "0 < MaxWidth config" "MaxWidth config < 2 ^ 53"
    and "0 < MaxHeight config" "MaxHeight config < 2 ^ 53"
  shows
    "(let scale = min (round64 (of_int (MaxWidth config) / of_int srcWidth))
                      (round64 (of_int (MaxHeight config) / of_int srcHeight));
          newWidth = toward_zero (round64 (of_int srcWidth * scale));
          newHeight = toward_zero (round64 (of_int srcHeight * scale))
      in (1 \<le> scale \<longleftrightarrow> srcWidth \<le> MaxWidth config \<and> srcHeight \<le> MaxHeight config)
       \<and> (1 \<le> scale \<longleftrightarrow>
            1 \<le> min (of_int (MaxWidth config) / of_int srcWidth :: rat)
                     (of_int (MaxHeight config) / of_int srcHeight))
       \<and> (1 \<le> scale \<longrightarrow> resizeImage config srcWidth srcHeight = Unchanged)
       \<and> (scale < 1 \<longrightarrow>
            resizeImage config srcWidth srcHeight = Scaled BiLinear newWidth newHeight
            \<and> 0 \<le> newWidth \<and> newWidth \<le> srcWidth
            \<and> 0 \<le> newHeight \<and> newHeight \<le> srcHeight))"
proof -
  define sx where "sx = round64 (of_int (MaxWidth config) / of_int srcWidth)"
  define sy where "sy = round64 (of_int (MaxHeight config) / of_int srcHeight)"
  define scale where "scale = min sx sy"
  have fx: "fdiv (float64_of_int (MaxWidth config)) (float64_of_int srcWidth) = Finite sx"
    unfolding sx_def using assms by (intro float_ratio)
  have fy: "fdiv (float64_of_int (MaxHeight config)) (float64_of_int srcHeight) = Finite sy"
    unfolding sy_def using assms by (intro float_ratio)
  have sx1: "1 \<le> sx \<longleftrightarrow> srcWidth \<le> MaxWidth config"
    using ratio_rounds_at_least_one[of srcWidth "MaxWidth config"]
      ratio_rounds_below_one[of "MaxWidth config" srcWidth] assms
    unfolding sx_def by (cases "srcWidth \<le> MaxWidth config") auto
  have sy1: "1 \<le> sy \<longleftrightarrow> srcHeight \<le> MaxHeight config"
    using ratio_rounds_at_least_one[of srcHeight "MaxHeight config"]
      ratio_rounds_below_one[of "MaxHeight config" srcHeight] assms
    unfolding sy_def by (cases "srcHeight \<le> MaxHeight config") auto
  have guard: "1 \<le> scale \<longleftrightarrow> srcWidth \<le> MaxWidth config \<and> srcHeight \<le> MaxHeight config"
    using sx1 sy1 by (simp add: scale_def)
  have exact: "1 \<le> min (of_int (MaxWidth config) / of_int srcWidth :: rat)
                        (of_int (MaxHeight config) / of_int srcHeight)
      \<longleftrightarrow> srcWidth \<le> MaxWidth config \<and> srcHeight \<le> MaxHeight config"
    using assms by simp
  have nonneg: "0 \<le> scale"
    using assms unfolding scale_def sx_def sy_def by (simp add: round64_nonneg)
  have unchanged: "resizeImage config srcWidth srcHeight = Unchanged" if "1 \<le> scale"
    using that guard by (simp add: resizeImage_def Let_def)
  have scaled: "resizeImage config srcWidth srcHeight
        = Scaled BiLinear (toward_zero (round64 (of_int srcWidth * scale)))
            (toward_zero (round64 (of_int srcHeight * scale)))
      \<and> 0 \<le> toward_zero (round64 (of_int srcWidth * scale))
      \<and> toward_zero (round64 (of_int srcWidth * scale)) \<le> srcWidth
      \<and> 0 \<le> toward_zero (round64 (of_int srcHeight * scale))
      \<and> toward_zero (round64 (of_int srcHeight * scale)) \<le> srcHeight" if "scale < 1"
  proof -
    have le1: "scale \<le> 1" using that by simp
    have ng: "\<not> (srcWidth \<le> MaxWidth config \<and> srcHeight \<le> MaxHeight config)"
      using that guard by simp
    note w = scaled_dimension[OF assms(1,2) nonneg le1]
    note h = scaled_dimension[OF assms(3,4) nonneg le1]
    have "resizeImage config srcWidth srcHeight
        = Scaled BiLinear (toward_zero (round64 (of_int srcWidth * scale)))
            (toward_zero (round64 (of_int srcHeight * scale)))"
    proof (cases "sy < sx")
      case True
      then have s: "scale = sy" by (simp add: scale_def min_def)
      show ?thesis using ng True w(1) h(1) by (simp add: resizeImage_def Let_def fx fy s)
    next
      case False
      then have s: "scale = sx" by (simp add: scale_def min_def)
      show ?thesis using ng False w(1) h(1) by (simp add: resizeImage_def Let_def fx fy s)
    qed
    then show ?thesis using w(2,3) h(2,3) by simp
  qed
  show ?thesis
    unfolding Let_def sx_def[symmetric] sy_def[symmetric] scale_def[symmetric]
    using guard exact unchanged scaled by blast
qed

lemma resize_3000_2000:
  "resizeImage DefaultConfig 3000 2000 = Scaled BiLinear 1024 682"
  by code_simp

theorem resize_truncates_witness:
  "min (round64 (of_int (MaxWidth DefaultConfig) / of_int 3000))
       (round64 (of_int (MaxHeight DefaultConfig) / of_int 2000)) < 1
   \<and> resizeImage DefaultConfig 3000 2000 = Scaled BiLinear 1024 682
   \<and> toward_zero (round64 (of_int 3000 *
        min (round64 (of_int (MaxWidth DefaultConfig) / of_int 3000))
            (round64 (of_int (MaxHeight DefaultConfig) / of_int 2000)))) = 1024
   \<and> toward_zero (round64 (of_int 2000 *
        min (round64 (of_int (MaxWidth DefaultConfig) / of_int 3000))
            (round64 (of_int (MaxHeight DefaultConfig) / of_int 2000)))) = 682"
proof -
  have c: "MaxWidth DefaultConfig = 1024" "MaxHeight DefaultConfig = 1024"
    by (simp_all add: DefaultConfig_def)
  have lt: "min (round64 (of_int (MaxWidth DefaultConfig) / of_int 3000))
       (round64 (of_int (MaxHeight DefaultConfig) / of_int 2000)) < 1"
    using ratio_rounds_below_one[of 1024 3000] by (simp add: c min_less_iff_disj)
  from resize_truncates[of 3000 2000 DefaultConfig] lt
  have r: "resizeImage DefaultConfig 3000 2000 =
      Scaled BiLinear
        (toward_zero (round64 (of_int 3000 *
          min (round64 (of_int (MaxWidth DefaultConfig) / of_int 3000))
              (round64 (of_int (MaxHeight DefaultConfig) / of_int 2000)))))
        (toward_zero (round64 (of_int 2000 *
          min (round64 (of_int (MaxWidth DefaultConfig) / of_int 3000))
              (round64 (of_int (MaxHeight DefaultConfig) / of_int 2000)))))"
    by (simp add: c Let_def)
  show ?thesis using lt r resize_3000_2000 by simp
qed

text \<open>
  The claim as stated fails: a source of 3000 by 2000 under the default bounds
  becomes 1024 by 682, where rounding \<open>2000 * 0.34133\<close> to the nearest integer
  gives 683.
\<close>

theorem resize_rounding_counterexample:
  "resizeImage DefaultConfig 3000 2000 = Scaled BiLinear 1024 682
   \<and> resize_spec DefaultConfig 3000 2000 = Scaled BiLinear 1024 683"
  by (rule conjI) code_simp+

end
